theory Spec2Isabelle
  imports Main "HOL-Library.Word"
begin

unbundle bit_operations_syntax

section \<open>LpdDefinitions.h: constants and wire structures\<close>

text \<open>
  The C types are kept: \<open>uint32_t\<close> is \<open>32 word\<close>, \<open>uint16_t\<close> is \<open>16 word\<close>,
  \<open>uint8_t\<close> is \<open>8 word\<close>. An array that the code indexes without a range check is a
  store from index to element (\<open>nat \<Rightarrow> 'a word\<close>): an index past the declared length
  reads whatever the frame buffer holds there, which a universally quantified store covers.
  The overlap of the zero-length \<open>packet_state[0][...]\<close> member with the memory that
  follows it is a matter of memory layout and is not represented: every FEM slot has its
  own \<open>packet_state\<close> store. The member \<open>frame_start_time\<close> of \<open>FrameHeader\<close>, a
  wall-clock time stamp, is left out; \<open>frame_number\<close> of \<open>FrameHeader\<close> is named
  \<open>hdr_frame_number\<close>, apart from the field of \<open>PacketTrailer\<close>.
\<close>

type_synonym u8 = "8 word"
type_synonym u16 = "16 word"
type_synonym u32 = "32 word"

datatype AsicCounterBitDepth =
  bitDepthUnknown | bitDepth1 | bitDepth6 | bitDepth12 | bitDepth24

definition num_bit_depths :: nat where
  "num_bit_depths = 4"

fun bit_depth_value :: "AsicCounterBitDepth \<Rightarrow> int" where
  "bit_depth_value bitDepthUnknown = -1"
| "bit_depth_value bitDepth1 = 0"
| "bit_depth_value bitDepth6 = 1"
| "bit_depth_value bitDepth12 = 2"
| "bit_depth_value bitDepth24 = 3"

definition primary_packet_size :: nat where
  "primary_packet_size = 8184"

definition num_primary_packets :: "nat list" where
  "num_primary_packets = [320, 320, 320, 320]"

definition max_primary_packets :: nat where
  "max_primary_packets = 320"

definition tail_packet_size :: "nat list" where
  "tail_packet_size = [3464, 3464, 3464, 3464]"

definition num_tail_packets :: nat where
  "num_tail_packets = 1"

definition max_num_fems :: nat where
  "max_num_fems = 6"

definition start_of_frame_mask :: u32 where
  "start_of_frame_mask = push_bit 31 1"

definition end_of_frame_mask :: u32 where
  "end_of_frame_mask = push_bit 30 1"

definition packet_number_mask :: u32 where
  "packet_number_mask = 0x3FFFFFFF"

record PacketTrailer =
  frame_number :: u32
  packet_number_flags :: u32

record FemReceiveState =
  packets_received :: u32
  sof_marker_count :: u8
  eof_marker_count :: u8
  packet_state :: "nat \<Rightarrow> u8"

record FrameHeader =
  hdr_frame_number :: u32
  frame_state :: u32
  total_packets_received :: u32
  total_sof_marker_count :: u8
  total_eof_marker_count :: u8
  num_active_fems :: u8
  active_fem_idx :: "nat \<Rightarrow> u8"
  fem_rx_state :: "nat \<Rightarrow> FemReceiveState"

text \<open>
  \<open>num_fem_frame_packets\<close> indexes the four-entry table \<open>num_primary_packets\<close> with the
  enum value; \<open>bitDepthUnknown\<close> is \<open>-1\<close> and falls outside the table, which is the
  \<open>None\<close> branch.
\<close>

definition num_fem_frame_packets :: "AsicCounterBitDepth \<Rightarrow> nat option" where
  "num_fem_frame_packets bit_depth =
     (let i = bit_depth_value bit_depth
      in if 0 \<le> i \<and> nat i < length num_primary_packets
         then Some (num_primary_packets ! nat i + num_tail_packets)
         else None)"

section \<open>Trailer decoding (LpdFrameDecoder)\<close>

text \<open>
  Modelled from the spec: the bodies of \<open>LpdFrameDecoder::get_frame_number\<close>,
  \<open>get_packet_number\<close>, \<open>get_start_of_frame_marker\<close> and
  \<open>get_end_of_frame_marker\<close> (only their declarations are in LpdFrameDecoder.h). The
  spec's section 4.1 gives each as a mask of \<open>packet_number_flags\<close>; the masks themselves
  are the constants of LpdDefinitions.h above.
\<close>

definition get_frame_number :: "PacketTrailer \<Rightarrow> u32" where
  "get_frame_number t = frame_number t"

definition get_packet_number :: "PacketTrailer \<Rightarrow> u32" where
  "get_packet_number t = packet_number_flags t AND packet_number_mask"

definition get_start_of_frame_marker :: "PacketTrailer \<Rightarrow> bool" where
  "get_start_of_frame_marker t = (packet_number_flags t AND start_of_frame_mask \<noteq> 0)"

definition get_end_of_frame_marker :: "PacketTrailer \<Rightarrow> bool" where
  "get_end_of_frame_marker t = (packet_number_flags t AND end_of_frame_mask \<noteq> 0)"

text \<open>
  Modelled from the spec: the encoder of a trailer, which the repository does not contain
  (the detector firmware produces trailers). Section 3 of the spec fixes the layout: the low
  30 bits of \<open>packet_number_flags\<close> are the packet number, bit 31 is the start-of-frame
  flag and bit 30 the end-of-frame flag.
\<close>

record trailer_fields =
  tf_frame_number :: u32
  tf_packet_number :: u32
  tf_start_of_frame :: bool
  tf_end_of_frame :: bool

definition encode_trailer :: "trailer_fields \<Rightarrow> PacketTrailer" where
  "encode_trailer x =
     \<lparr> frame_number = tf_frame_number x,
       packet_number_flags =
         tf_packet_number x
         OR (if tf_start_of_frame x then start_of_frame_mask else 0)
         OR (if tf_end_of_frame x then end_of_frame_mask else 0) \<rparr>"

definition decode_trailer :: "PacketTrailer \<Rightarrow> trailer_fields" where
  "decode_trailer t =
     \<lparr> tf_frame_number = get_frame_number t,
       tf_packet_number = get_packet_number t,
       tf_start_of_frame = get_start_of_frame_marker t,
       tf_end_of_frame = get_end_of_frame_marker t \<rparr>"

section \<open>LpdProcessPlugin\<close>

text \<open>
  LpdProcessPlugin.cpp uses constants of namespace \<open>Lpd\<close> that LpdDefinitions.h does not
  define (\<open>num_packets\<close>, the ASIC geometry, \<open>image_data_header\<close>, and
  \<open>max_frame_size\<close> read as a value). They are parameters of the model.
\<close>

record lpd_constants =
  num_packets :: nat
  max_frame_size :: nat
  num_asic_rows :: nat
  num_asic_cols :: nat
  num_pixel_rows_per_asic :: nat
  num_pixel_cols_per_asic :: nat
  image_data_header :: nat

text \<open>
  A frame handed to the plugin: the \<open>FrameHeader\<close> at the head of the buffer and the
  payload behind it; \<open>payload_u16 fr a\<close> is the \<open>uint16_t\<close> stored at byte offset \<open>a\<close>
  from \<open>data_ptr\<close>.
\<close>

record frame =
  hdr :: FrameHeader
  payload_u16 :: "nat \<Rightarrow> u16"

text \<open>
  What \<open>push\<close> hands downstream: the dataset name of the \<open>Frame\<close>, the number given to
  \<open>set_frame_number\<close>, the dimensions, and the bytes given to \<open>copy_data\<close> (a pixel
  plane of 16-bit samples or one 4-byte value).
\<close>

datatype frame_data = Pixels "u16 list" | Scalar u32

record out_frame =
  dataset_name :: string
  out_frame_number :: u32
  dimensions :: "u32 list"
  out_data :: frame_data

text \<open>The messages logged at ERROR level; TRACE and DEBUG output is not recorded.\<close>

datatype log_error =
  FrameDroppedPackets u32 u32
  | TotalPacketsLost u32
  | DecodeFailed string

text \<open>
  The members of the plugin. LpdProcessPlugin.h is not among the sources; the numeric
  members are taken as \<open>int\<close>, the type \<open>configure\<close> reads them as, held as 32-bit
  words (\<open>sint\<close> reads the signed value, arithmetic wraps), and named without the
  trailing underscore of the C++ names. \<open>pushed\<close> collects the frames given to
  \<open>push\<close>, oldest first.
\<close>

record plugin =
  image_width :: u32
  image_height :: u32
  image_pixels :: u32
  num_images :: u32
  packets_lost :: u32
  image_counter :: u32
  pushed :: "out_frame list"
  error_log :: "log_error list"

definition LpdProcessPlugin :: plugin where
  "LpdProcessPlugin =
     \<lparr> image_width = 256, image_height = 256, image_pixels = 256 * 256,
       num_images = 20, packets_lost = 0, image_counter = 0,
       pushed = [], error_log = [] \<rparr>"

definition CONFIG_DROPPED_PACKETS :: string where
  "CONFIG_DROPPED_PACKETS = ''packets_lost''"

definition CONFIG_IMAGE_WIDTH :: string where
  "CONFIG_IMAGE_WIDTH = ''width''"

definition CONFIG_IMAGE_HEIGHT :: string where
  "CONFIG_IMAGE_HEIGHT = ''height''"

definition CONFIG_NUM_IMAGES :: string where
  "CONFIG_NUM_IMAGES = ''num_images''"

text \<open>
  An \<open>IpcMessage\<close> as the parameters it holds: \<open>has_param\<close> is \<open>config k \<noteq> None\<close> and
  \<open>get_param<int>\<close> is the value found. The reply message is not written.
\<close>

type_synonym IpcMessage = "string \<rightharpoonup> u32"

definition configure :: "IpcMessage \<Rightarrow> plugin \<Rightarrow> plugin" where
  "configure config s =
     (let s1 = (case config CONFIG_DROPPED_PACKETS of
                  Some v \<Rightarrow> s\<lparr>packets_lost := v\<rparr> | None \<Rightarrow> s);
          s2 = (case config CONFIG_IMAGE_WIDTH of
                  Some v \<Rightarrow> s1\<lparr>image_width := v\<rparr> | None \<Rightarrow> s1);
          s3 = (case config CONFIG_IMAGE_HEIGHT of
                  Some v \<Rightarrow> s2\<lparr>image_height := v\<rparr> | None \<Rightarrow> s2);
          s4 = (case config CONFIG_NUM_IMAGES of
                  Some v \<Rightarrow> s3\<lparr>num_images := v\<rparr> | None \<Rightarrow> s3)
      in s4\<lparr>image_pixels := image_width s4 * image_height s4\<rparr>)"

text \<open>\<open>status\<close> reports the counter under the key \<open>packets_lost\<close>.\<close>

definition status :: "plugin \<Rightarrow> u32" where
  "status s = packets_lost s"

text \<open>
  \<open>process_lost_packets\<close>: the comparison and the subtraction are on unsigned values
  (\<open>total_packets_received\<close> is \<open>uint32_t\<close>) and run only when the difference is
  positive; the difference is then added to the \<open>int\<close> counter, modulo \<open>2 ^ 32\<close>.
  The product \<open>Lpd::num_packets * num_active_fems\<close> (a packet count times at most 255) is
  taken as the number it denotes.
\<close>

definition process_lost_packets :: "lpd_constants \<Rightarrow> FrameHeader \<Rightarrow> plugin \<Rightarrow> plugin" where
  "process_lost_packets c h s =
     (let expected = num_packets c * unat (num_active_fems h);
          received = unat (total_packets_received h)
      in if received < expected
         then let lost = (of_nat (expected - received) :: u32);
                  total = packets_lost s + lost
              in s\<lparr>packets_lost := total,
                   error_log := error_log s @
                     [FrameDroppedPackets (hdr_frame_number h) lost,
                      TotalPacketsLost total]\<rparr>
         else s)"

subsection \<open>The reordering loop of process_frame\<close>

text \<open>
  A write through \<open>output_data_ptr\<close> is defined only inside the allocated buffer. A
  write through the null pointer or past the end of the buffer is undefined behaviour in
  C++; the model stops there with a \<open>fault\<close> and keeps the plugin state reached.
\<close>

datatype fault = NullPointerWrite | OutOfBoundsWrite nat

datatype outcome = Returned plugin | Crashed fault plugin

fun final_state :: "outcome \<Rightarrow> plugin" where
  "final_state (Returned s) = s"
| "final_state (Crashed f s) = s"

fun crashed :: "outcome \<Rightarrow> fault option" where
  "crashed (Returned s) = None"
| "crashed (Crashed f s) = Some f"

text \<open>\<open>malloc\<close>: whether it returns a buffer, and the uninitialised samples found in it.\<close>

record environment =
  malloc_succeeds :: bool
  malloc_contents :: "nat \<Rightarrow> u16"

record locals =
  pkt_num :: u32
  pkt_slot :: u32
  pkt_offset :: u32
  pixel_offset :: u32

text \<open>
  The packet lookup reads \<open>hdr_ptr->fem_rx_state->packet_state[0][pkt_num]\<close>: the array
  \<open>fem_rx_state\<close> decays to a pointer to its first element, so this is the state of FEM
  slot 0 whatever FEM is being reordered. The \<open>uint8_t\<close> entry is widened to
  \<open>unsigned int\<close>.
\<close>

definition lookup_slot :: "FrameHeader \<Rightarrow> u32 \<Rightarrow> u32" where
  "lookup_slot h n = ucast (packet_state (fem_rx_state h 0) (unat n))"

definition first_packet :: "FrameHeader \<Rightarrow> locals" where
  "first_packet h =
     (let slot = lookup_slot h 0
      in \<lparr> pkt_num = 0, pkt_slot = slot,
           pkt_offset = slot * of_nat (primary_packet_size div 2),
           pixel_offset = 0 \<rparr>)"

definition next_packet :: "FrameHeader \<Rightarrow> locals \<Rightarrow> locals" where
  "next_packet h l =
     (if primary_packet_size div 2 \<le> unat (pixel_offset l)
      then let n = pkt_num l + 1; slot = lookup_slot h n
           in \<lparr> pkt_num = n, pkt_slot = slot,
                pkt_offset = slot * of_nat (primary_packet_size div 2),
                pixel_offset = 0 \<rparr>
      else l)"

text \<open>
  \<open>input_ptr\<close> is \<open>data_ptr + fem_frame_size * idx\<close> in bytes, read as \<open>uint16_t*\<close> and
  indexed by \<open>input_offset\<close>.
\<close>

definition input_sample :: "lpd_constants \<Rightarrow> frame \<Rightarrow> nat \<Rightarrow> u32 \<Rightarrow> u16" where
  "input_sample c fr idx input_offset =
     payload_u16 fr (max_frame_size c * idx + 2 * unat input_offset)"

text \<open>The loop indices \<open>(pixel_row, pixel_col, asic_row, asic_col)\<close> of one pixel.\<close>

type_synonym pixel_index = "nat \<times> nat \<times> nat \<times> nat"

definition output_offset :: "lpd_constants \<Rightarrow> pixel_index \<Rightarrow> u32" where
  "output_offset c p =
     (case p of (pixel_row, pixel_col, asic_row, asic_col) \<Rightarrow>
        let num_pixels_per_row =
              (of_nat (num_asic_cols c) * of_nat (num_pixel_cols_per_asic c) :: u32);
            image_row =
              (of_nat asic_row * of_nat (num_pixel_rows_per_asic c) + of_nat pixel_row :: u32);
            image_col =
              (of_nat asic_col * of_nat (num_pixel_cols_per_asic c) + of_nat pixel_col :: u32)
        in image_row * num_pixels_per_row + image_col)"

definition input_offset :: "lpd_constants \<Rightarrow> locals \<Rightarrow> u32" where
  "input_offset c l =
     of_nat (image_data_header c div 2) + pkt_offset l + pixel_offset l"

definition pixel_value :: "lpd_constants \<Rightarrow> frame \<Rightarrow> nat \<Rightarrow> locals \<Rightarrow> u16" where
  "pixel_value c fr idx l =
     (if pkt_slot l < 65535 then input_sample c fr idx (input_offset c l) else 0)"

definition store_pixel :: "u16 list option \<Rightarrow> nat \<Rightarrow> u16 \<Rightarrow> fault + u16 list option" where
  "store_pixel reordered_image off v =
     (case reordered_image of
        None \<Rightarrow> Inl NullPointerWrite
      | Some b \<Rightarrow> if off < length b then Inr (Some (b[off := v])) else Inl (OutOfBoundsWrite off))"

text \<open>The body of the innermost loop.\<close>

definition copy_pixel ::
  "lpd_constants \<Rightarrow> frame \<Rightarrow> nat \<Rightarrow> pixel_index \<Rightarrow> u16 list option \<times> locals
     \<Rightarrow> fault + (u16 list option \<times> locals)" where
  "copy_pixel c fr idx p st =
     (case st of (reordered_image, l) \<Rightarrow>
        let l1 = next_packet (hdr fr) l
        in case store_pixel reordered_image (unat (output_offset c p)) (pixel_value c fr idx l1) of
             Inl f \<Rightarrow> Inl f
           | Inr img \<Rightarrow> Inr (img, l1\<lparr>pixel_offset := pixel_offset l1 + 1\<rparr>))"

text \<open>
  The four loops below the image loop, in the order they run: pixel rows from the bottom,
  pixel columns from the left, ASIC rows from the bottom, ASIC columns from the left.
\<close>

definition scan_order :: "lpd_constants \<Rightarrow> pixel_index list" where
  "scan_order c =
     [(pixel_row, pixel_col, asic_row, asic_col).
        pixel_row \<leftarrow> rev [0..<num_pixel_rows_per_asic c],
        pixel_col \<leftarrow> [0..<num_pixel_cols_per_asic c],
        asic_row \<leftarrow> rev [0..<num_asic_rows c],
        asic_col \<leftarrow> [0..<num_asic_cols c]]"

fun copy_pixels ::
  "lpd_constants \<Rightarrow> frame \<Rightarrow> nat \<Rightarrow> pixel_index list \<Rightarrow> u16 list option \<times> locals
     \<Rightarrow> fault + (u16 list option \<times> locals)" where
  "copy_pixels c fr idx [] st = Inr st"
| "copy_pixels c fr idx (p # ps) st =
     (case copy_pixel c fr idx p st of
        Inl f \<Rightarrow> Inl f
      | Inr st' \<Rightarrow> copy_pixels c fr idx ps st')"

text \<open>
  The three frames pushed for one image, all numbered with \<open>image_counter\<close>. They are
  pushed only while \<open>reordered_image\<close> is not null; \<open>copy_data\<close> takes \<open>image_size\<close>
  bytes of the buffer.
\<close>

definition push_image :: "frame \<Rightarrow> u32 \<Rightarrow> u16 list option \<Rightarrow> u32 \<Rightarrow> plugin \<Rightarrow> plugin" where
  "push_image fr image_size reordered_image image_n s =
     (case reordered_image of
        None \<Rightarrow> s
      | Some b \<Rightarrow>
          s\<lparr>pushed := pushed s @
            [\<lparr> dataset_name = ''data'', out_frame_number = image_counter s,
               dimensions = [image_height s, image_width s],
               out_data = Pixels (take (unat image_size div 2) b) \<rparr>,
             \<lparr> dataset_name = ''img_num'', out_frame_number = image_counter s,
               dimensions = [1], out_data = Scalar image_n \<rparr>,
             \<lparr> dataset_name = ''frame_num'', out_frame_number = image_counter s,
               dimensions = [1], out_data = Scalar (hdr_frame_number (hdr fr)) \<rparr>]\<rparr>)"

text \<open>
  The end of the image loop's body: the three pushes, then \<open>image_counter_++\<close>, which
  runs whether or not anything was pushed.
\<close>

definition next_image :: "frame \<Rightarrow> u32 \<Rightarrow> u16 list option \<Rightarrow> nat \<Rightarrow> plugin \<Rightarrow> plugin" where
  "next_image fr image_size reordered_image image_n s =
     (let s1 = push_image fr image_size reordered_image (of_nat image_n) s
      in s1\<lparr>image_counter := image_counter s1 + 1\<rparr>)"

type_synonym reorder_state = "u16 list option \<times> locals \<times> plugin"

text \<open>
  The image loop: the loop variable \<open>image\<close> (here \<open>image_n\<close>) runs over
  \<open>0 .. num_images - 1\<close> as \<open>unsigned int\<close>.
\<close>

fun image_loop ::
  "lpd_constants \<Rightarrow> frame \<Rightarrow> nat \<Rightarrow> u32 \<Rightarrow> nat list \<Rightarrow> reorder_state
     \<Rightarrow> (fault \<times> plugin) + reorder_state" where
  "image_loop c fr idx image_size [] st = Inr st"
| "image_loop c fr idx image_size (image_n # images) st =
     (case st of (reordered_image, l, s) \<Rightarrow>
        (case copy_pixels c fr idx (scan_order c) (reordered_image, l) of
           Inl f \<Rightarrow> Inl (f, s)
         | Inr (img, l') \<Rightarrow>
             image_loop c fr idx image_size images
               (img, l', next_image fr image_size img image_n s)))"

text \<open>
  The loop over the active FEMs. The packet locals start afresh for every FEM; the buffer
  is the one allocated before the loop, and it is freed and set to null at the end of every
  iteration.
\<close>

fun fem_loop ::
  "lpd_constants \<Rightarrow> frame \<Rightarrow> u32 \<Rightarrow> nat list \<Rightarrow> u16 list option \<times> plugin
     \<Rightarrow> (fault \<times> plugin) + (u16 list option \<times> plugin)" where
  "fem_loop c fr image_size [] st = Inr st"
| "fem_loop c fr image_size (idx # idxs) st =
     (case st of (reordered_image, s) \<Rightarrow>
        (case image_loop c fr idx image_size [0..<unat (num_images s)]
                (reordered_image, first_packet (hdr fr), s) of
           Inl e \<Rightarrow> Inl e
         | Inr (img, l, s') \<Rightarrow> fem_loop c fr image_size idxs (None, s')))"

text \<open>
  The allocation \<open>malloc(image_pixels * 2)\<close>: the \<open>int\<close> product becomes a \<open>size_t\<close>, so
  a negative product asks for more than \<open>2 ^ 63\<close> bytes and gets the null pointer; otherwise
  the environment decides. A buffer of \<open>n\<close> bytes holds \<open>n div 2\<close> samples.
\<close>

definition allocate :: "environment \<Rightarrow> plugin \<Rightarrow> u16 list option" where
  "allocate env s =
     (let bytes = image_pixels s * 2
      in if 0 \<le> sint bytes \<and> malloc_succeeds env
         then Some (map (malloc_contents env) [0..<unat bytes div 2])
         else None)"

definition reorder_frame :: "lpd_constants \<Rightarrow> environment \<Rightarrow> frame \<Rightarrow> plugin \<Rightarrow> outcome" where
  "reorder_frame c env fr s =
     (let image_size = image_width s * image_height s * 2
      in case allocate env s of
           None \<Rightarrow>
             Returned (s\<lparr>error_log := error_log s @
               [DecodeFailed ''LPD frame decode failed: Failed to allocate temporary buffer for reordered image'']\<rparr>)
         | Some b \<Rightarrow>
             (case fem_loop c fr image_size [0..<unat (num_active_fems (hdr fr))] (Some b, s) of
                Inl (f, s') \<Rightarrow> Crashed f s'
              | Inr (img, s') \<Rightarrow> Returned s'))"

definition process_frame :: "lpd_constants \<Rightarrow> environment \<Rightarrow> frame \<Rightarrow> plugin \<Rightarrow> outcome" where
  "process_frame c env fr s = reorder_frame c env fr (process_lost_packets c (hdr fr) s)"

section \<open>Notions used in the statements\<close>

text \<open>The number of pixels the four pixel loops visit for one image.\<close>

definition geometry_pixels :: "lpd_constants \<Rightarrow> nat" where
  "geometry_pixels c =
     (num_asic_rows c * num_pixel_rows_per_asic c) * (num_asic_cols c * num_pixel_cols_per_asic c)"

text \<open>
  What a pushed frame says besides its pixels: dataset name, the number set with
  \<open>set_frame_number\<close>, and the 4-byte value it carries if it carries one.
  \<open>triplet_labels fn counter images\<close> lists these for the triplets of the given images,
  numbered from \<open>counter\<close> upwards, in a frame with frame number \<open>fn\<close>.
\<close>

type_synonym frame_label = "string \<times> u32 \<times> u32 option"

definition label_of :: "out_frame \<Rightarrow> frame_label" where
  "label_of f =
     (dataset_name f, out_frame_number f,
      case out_data f of Scalar v \<Rightarrow> Some v | Pixels px \<Rightarrow> None)"

fun triplet_labels :: "u32 \<Rightarrow> u32 \<Rightarrow> nat list \<Rightarrow> frame_label list" where
  "triplet_labels fn counter [] = []"
| "triplet_labels fn counter (i # images) =
     [(''data'', counter, None),
      (''img_num'', counter, Some (of_nat i)),
      (''frame_num'', counter, Some fn)] @ triplet_labels fn (counter + 1) images"

definition same_settings :: "plugin \<Rightarrow> plugin \<Rightarrow> bool" where
  "same_settings s s' \<longleftrightarrow>
     image_width s' = image_width s \<and> image_height s' = image_height s
     \<and> image_pixels s' = image_pixels s \<and> num_images s' = num_images s
     \<and> packets_lost s' = packets_lost s \<and> error_log s' = error_log s"

definition pushed_since :: "plugin \<Rightarrow> plugin \<Rightarrow> out_frame list" where
  "pushed_since s s' = drop (length (pushed s)) (pushed s')"

definition emitted :: "frame \<Rightarrow> plugin \<Rightarrow> nat list \<Rightarrow> plugin \<Rightarrow> bool" where
  "emitted fr s images s' \<longleftrightarrow>
     take (length (pushed s)) (pushed s') = pushed s
     \<and> map label_of (pushed_since s s')
         = triplet_labels (hdr_frame_number (hdr fr)) (image_counter s) images
     \<and> same_settings s s'"

section \<open>Example inputs\<close>

text \<open>
  A detector of two ASIC rows and one ASIC column with 1 x 2 pixels per ASIC (four pixels
  per image). In the example frames (frame number 7) the payload sample at 16-bit index
  \<open>k\<close> holds \<open>k mod 65536\<close>. A FEM has either all 321 packets, or all but packet 0, which
  carries the start-of-frame marker; packet \<open>n\<close> lies in storage slot \<open>n\<close> and the entry of
  a missing packet holds the sentinel, both as far as the \<open>uint8_t\<close> entry can hold them.
  \<open>example_frame ms\<close> has one active FEM per element of \<open>ms\<close>, which tells whether the
  FEM misses packet 0.
\<close>

definition example_constants :: lpd_constants where
  "example_constants =
     \<lparr> num_packets = 321, max_frame_size = 2622400, num_asic_rows = 2, num_asic_cols = 1,
       num_pixel_rows_per_asic = 1, num_pixel_cols_per_asic = 2, image_data_header = 32 \<rparr>"

definition example_fem_state :: "bool \<Rightarrow> FemReceiveState" where
  "example_fem_state missing0 =
     \<lparr> packets_received = (if missing0 then 320 else 321),
       sof_marker_count = (if missing0 then 0 else 1),
       eof_marker_count = 1,
       packet_state = (\<lambda>n. if missing0 \<and> n = 0 then ucast (65535 :: u16) else of_nat n) \<rparr>"

definition example_header :: "bool list \<Rightarrow> FrameHeader" where
  "example_header ms =
     \<lparr> hdr_frame_number = 7, frame_state = 0,
       total_packets_received = of_nat (sum_list (map (\<lambda>m. if m then 320 else 321) ms)),
       total_sof_marker_count = of_nat (length (filter Not ms)),
       total_eof_marker_count = of_nat (length ms),
       num_active_fems = of_nat (length ms),
       active_fem_idx = (\<lambda>i. of_nat i),
       fem_rx_state = (\<lambda>i. example_fem_state (i < length ms \<and> ms ! i)) \<rparr>"

definition example_frame :: "bool list \<Rightarrow> frame" where
  "example_frame ms =
     \<lparr> hdr = example_header ms, payload_u16 = (\<lambda>a. of_nat (a div 2)) \<rparr>"

definition example_plugin :: "u32 \<Rightarrow> u32 \<Rightarrow> u32 \<Rightarrow> plugin" where
  "example_plugin w h n =
     configure [CONFIG_IMAGE_WIDTH \<mapsto> w, CONFIG_IMAGE_HEIGHT \<mapsto> h, CONFIG_NUM_IMAGES \<mapsto> n]
       LpdProcessPlugin"

definition example_malloc :: "bool \<Rightarrow> environment" where
  "example_malloc ok = \<lparr> malloc_succeeds = ok, malloc_contents = (\<lambda>i. 0xDEAD) \<rparr>"


section \<open>Frame assembly (LpdFrameDecoder)\<close>

text \<open>
  Modelled from the spec: \<open>LpdFrameDecoder::process_packet\<close>, \<open>monitor_buffers\<close> and
  \<open>initialise_frame_header\<close>, whose bodies (LpdFrameDecoder.cpp) are not among the
  sources; LpdFrameDecoder.h only declares them. The model follows section 4.3 of the spec
  for one frame buffer: its states, the per-packet transition (steps 1 to 5), and the forced
  drop of step 6 and of buffer eviction. Wall-clock time is not represented: the expiry of
  the time window and the eviction by the pool are events. The header is the
  \<open>FrameHeader\<close> of LpdDefinitions.h, and \<open>fem_rx_state\<close> is indexed by the position of
  the FEM in \<open>active_fem_idx\<close>.
\<close>

datatype buffer_state = Empty | Receiving | Complete | Dropped

record frame_buffer =
  buffer_state :: buffer_state
  header :: FrameHeader
  lost :: int

definition ILLEGAL_FEM_IDX :: int where
  "ILLEGAL_FEM_IDX = -1"

definition default_frame_number :: u32 where
  "default_frame_number = -1"

text \<open>
  A packet as the assembler sees it after routing: the logical FEM index its source port
  maps to (\<open>ILLEGAL_FEM_IDX\<close> for an unmapped port) and its trailer.
\<close>

datatype assembler_event = Packet int PacketTrailer | Timeout | Evict

definition initialise_frame_header :: "u32 \<Rightarrow> FrameHeader" where
  "initialise_frame_header fn =
     \<lparr> hdr_frame_number = fn, frame_state = 0, total_packets_received = 0,
       total_sof_marker_count = 0, total_eof_marker_count = 0, num_active_fems = 0,
       active_fem_idx = (\<lambda>i. 0),
       fem_rx_state = (\<lambda>i. \<lparr> packets_received = 0, sof_marker_count = 0,
                               eof_marker_count = 0,
                               packet_state = (\<lambda>n. ucast (65535 :: u16)) \<rparr>) \<rparr>"

definition empty_buffer :: frame_buffer where
  "empty_buffer =
     \<lparr> buffer_state = Empty, header = initialise_frame_header default_frame_number,
       lost = 0 \<rparr>"

definition fem_position :: "FrameHeader \<Rightarrow> u8 \<Rightarrow> nat option" where
  "fem_position h fem =
     find (\<lambda>i. active_fem_idx h i = fem) [0..<unat (num_active_fems h)]"

text \<open>Step 2: the entry of \<open>active_fem_idx\<close> for this FEM, created on first sight.\<close>

definition locate_fem :: "FrameHeader \<Rightarrow> u8 \<Rightarrow> nat \<times> FrameHeader" where
  "locate_fem h fem =
     (case fem_position h fem of
        Some i \<Rightarrow> (i, h)
      | None \<Rightarrow>
          (unat (num_active_fems h),
           h\<lparr> active_fem_idx := (active_fem_idx h)(unat (num_active_fems h) := fem),
              num_active_fems := num_active_fems h + 1 \<rparr>))"

text \<open>Steps 3 and 4: direct-indexed placement and the update of the receive state.\<close>

definition receive_packet :: "FrameHeader \<Rightarrow> u8 \<Rightarrow> PacketTrailer \<Rightarrow> FrameHeader" where
  "receive_packet h fem t =
     (case locate_fem h fem of (i, h1) \<Rightarrow>
        let st = fem_rx_state h1 i;
            pn = get_packet_number t;
            sof = get_start_of_frame_marker t;
            eof = get_end_of_frame_marker t;
            st' = st\<lparr> packet_state := (packet_state st)(unat pn := ucast pn),
                      packets_received := packets_received st + 1,
                      sof_marker_count := sof_marker_count st + (if sof then 1 else 0),
                      eof_marker_count := eof_marker_count st + (if eof then 1 else 0) \<rparr>
        in h1\<lparr> fem_rx_state := (fem_rx_state h1)(i := st'),
               total_packets_received := total_packets_received h1 + 1,
               total_sof_marker_count := total_sof_marker_count h1 + (if sof then 1 else 0),
               total_eof_marker_count := total_eof_marker_count h1 + (if eof then 1 else 0) \<rparr>)"

text \<open>
  The completion condition of the spec: every active FEM has exactly one start-of-frame and
  one end-of-frame marker and as many packets as the bit depth expects.
\<close>

definition fem_complete :: "nat \<Rightarrow> FemReceiveState \<Rightarrow> bool" where
  "fem_complete expected st \<longleftrightarrow>
     sof_marker_count st = 1 \<and> eof_marker_count st = 1
     \<and> unat (packets_received st) = expected"

definition all_fems_complete :: "nat \<Rightarrow> FrameHeader \<Rightarrow> bool" where
  "all_fems_complete expected h =
     list_all (\<lambda>i. fem_complete expected (fem_rx_state h i)) [0..<unat (num_active_fems h)]"

text \<open>Step 5.\<close>

definition evaluate_completion :: "nat \<Rightarrow> frame_buffer \<Rightarrow> frame_buffer" where
  "evaluate_completion expected b =
     (if all_fems_complete expected (header b) then b\<lparr>buffer_state := Complete\<rparr> else b)"

text \<open>Step 6 and eviction: the frame is dropped and its missing packets are counted.\<close>

definition drop_frame :: "nat \<Rightarrow> frame_buffer \<Rightarrow> frame_buffer" where
  "drop_frame expected b =
     b\<lparr> buffer_state := Dropped,
        lost := int (expected * unat (num_active_fems (header b)))
                - int (unat (total_packets_received (header b))) \<rparr>"

fun process_event :: "nat \<Rightarrow> frame_buffer \<Rightarrow> assembler_event \<Rightarrow> frame_buffer" where
  "process_event expected b (Packet fem t) =
     (if 0 \<le> fem \<and> fem < int max_num_fems
      then (case buffer_state b of
              Empty \<Rightarrow>
                evaluate_completion expected
                  (b\<lparr> buffer_state := Receiving,
                     header := receive_packet (initialise_frame_header (get_frame_number t))
                                 (of_int fem) t \<rparr>)
            | Receiving \<Rightarrow>
                if get_frame_number t = hdr_frame_number (header b)
                then evaluate_completion expected
                       (b\<lparr>header := receive_packet (header b) (of_int fem) t\<rparr>)
                else b
            | Complete \<Rightarrow> b
            | Dropped \<Rightarrow> b)
      else b)"
| "process_event expected b Timeout =
     (case buffer_state b of Receiving \<Rightarrow> drop_frame expected b | _ \<Rightarrow> b)"
| "process_event expected b Evict =
     (case buffer_state b of Receiving \<Rightarrow> drop_frame expected b | _ \<Rightarrow> b)"

definition run_assembler :: "nat \<Rightarrow> assembler_event list \<Rightarrow> frame_buffer" where
  "run_assembler expected events = foldl (process_event expected) empty_buffer events"

definition example_trailer :: "u32 \<Rightarrow> bool \<Rightarrow> bool \<Rightarrow> PacketTrailer" where
  "example_trailer pn sof eof =
     encode_trailer \<lparr> tf_frame_number = 7, tf_packet_number = pn,
                      tf_start_of_frame = sof, tf_end_of_frame = eof \<rparr>"

text \<open>
  In-order delivery of the \<open>n\<close> packets of frame 7 from FEM 0: the first carries the
  start-of-frame flag, the last the end-of-frame flag.
\<close>

definition in_order_packet :: "nat \<Rightarrow> nat \<Rightarrow> assembler_event" where
  "in_order_packet n k = Packet 0 (example_trailer (of_nat k) (k = 0) (Suc k = n))"

definition in_order_delivery :: "nat \<Rightarrow> nat \<Rightarrow> assembler_event list" where
  "in_order_delivery n m = map (in_order_packet n) [0..<m]"

text \<open>What holds of a frame buffer between packets, used to prove the claims.\<close>

definition assembler_inv :: "nat \<Rightarrow> frame_buffer \<Rightarrow> bool" where
  "assembler_inv expected b \<longleftrightarrow>
     (case buffer_state b of
        Empty \<Rightarrow> True
      | Receiving \<Rightarrow> \<not> all_fems_complete expected (header b)
      | Complete \<Rightarrow> all_fems_complete expected (header b)
      | Dropped \<Rightarrow>
          \<not> all_fems_complete expected (header b)
          \<and> lost b = int (expected * unat (num_active_fems (header b)))
                      - int (unat (total_packets_received (header b))))"

definition receiving_in_order :: "nat \<Rightarrow> frame_buffer \<Rightarrow> bool" where
  "receiving_in_order m b \<longleftrightarrow>
     buffer_state b = Receiving
     \<and> hdr_frame_number (header b) = 7
     \<and> num_active_fems (header b) = 1
     \<and> active_fem_idx (header b) 0 = 0
     \<and> packets_received (fem_rx_state (header b) 0) = of_nat m
     \<and> sof_marker_count (fem_rx_state (header b) 0) = 1
     \<and> eof_marker_count (fem_rx_state (header b) 0) = 0
     \<and> total_packets_received (header b) = of_nat m"

section \<open>Theorems\<close>

subsection \<open>Trailer decoding\<close>

lemma masks_disjoint:
  "start_of_frame_mask AND packet_number_mask = 0"
  "end_of_frame_mask AND packet_number_mask = 0"
  "start_of_frame_mask AND end_of_frame_mask = 0"
  "start_of_frame_mask \<noteq> 0"
  "end_of_frame_mask \<noteq> 0"
  by (simp_all add: start_of_frame_mask_def end_of_frame_mask_def packet_number_mask_def)

lemma pn_keep: "(pn::u32) \<le> packet_number_mask \<Longrightarrow> pn AND packet_number_mask = pn"
proof -
  assume "pn \<le> packet_number_mask"
  then have "uint pn < 2 ^ 30"
    by (simp add: word_le_def packet_number_mask_def)
  then have "pn AND mask 30 = pn" by (simp add: mask_eq_iff)
  then show ?thesis by (simp add: packet_number_mask_def mask_eq_exp_minus_1)
qed

lemma pn_no_flags:
  fixes pn :: u32
  assumes "pn \<le> packet_number_mask"
  shows "pn AND start_of_frame_mask = 0" and "pn AND end_of_frame_mask = 0"
proof -
  have a: "pn AND packet_number_mask = pn" using assms by (rule pn_keep)
  have s0: "packet_number_mask AND start_of_frame_mask = 0"
    by (simp add: packet_number_mask_def start_of_frame_mask_def)
  have e0: "packet_number_mask AND end_of_frame_mask = 0"
    by (simp add: packet_number_mask_def end_of_frame_mask_def)
  have "pn AND start_of_frame_mask = (pn AND packet_number_mask) AND start_of_frame_mask"
    by (simp only: a)
  also have "\<dots> = pn AND (packet_number_mask AND start_of_frame_mask)"
    by (simp only: and.assoc)
  finally show "pn AND start_of_frame_mask = 0" by (simp only: s0 and_zero_eq)
  have "pn AND end_of_frame_mask = (pn AND packet_number_mask) AND end_of_frame_mask"
    by (simp only: a)
  also have "\<dots> = pn AND (packet_number_mask AND end_of_frame_mask)"
    by (simp only: and.assoc)
  finally show "pn AND end_of_frame_mask = 0" by (simp only: e0 and_zero_eq)
qed

lemma rt_bits:
  fixes pn :: u32
  assumes "pn \<le> packet_number_mask"
  shows "(pn OR (if s then start_of_frame_mask else 0) OR (if e then end_of_frame_mask else 0)) AND packet_number_mask = pn"
    and "((pn OR (if s then start_of_frame_mask else 0) OR (if e then end_of_frame_mask else 0)) AND start_of_frame_mask \<noteq> 0) = s"
    and "((pn OR (if s then start_of_frame_mask else 0) OR (if e then end_of_frame_mask else 0)) AND end_of_frame_mask \<noteq> 0) = e"
proof -
  have a: "pn AND packet_number_mask = pn" using assms by (rule pn_keep)
  note b = pn_no_flags [OF assms]
  have c: "end_of_frame_mask AND start_of_frame_mask = 0"
    using masks_disjoint(3) by (simp add: and.commute)
  show "(pn OR (if s then start_of_frame_mask else 0) OR (if e then end_of_frame_mask else 0)) AND packet_number_mask = pn"
    using a masks_disjoint by (simp add: bit.conj_disj_distrib2)
  show "((pn OR (if s then start_of_frame_mask else 0) OR (if e then end_of_frame_mask else 0)) AND start_of_frame_mask \<noteq> 0) = s"
    using b c masks_disjoint by (simp add: bit.conj_disj_distrib2)
  show "((pn OR (if s then start_of_frame_mask else 0) OR (if e then end_of_frame_mask else 0)) AND end_of_frame_mask \<noteq> 0) = e"
    using b c masks_disjoint by (simp add: bit.conj_disj_distrib2)
qed

text \<open>
  Claim C4. Decoding reads \<open>frame_number\<close> as the raw 32-bit word, the packet number as
  \<open>packet_number_flags AND 0x3FFFFFFF\<close>, the start-of-frame flag as bit 31 and the
  end-of-frame flag as bit 30 of \<open>packet_number_flags\<close>; and for every trailer value
  whose packet number fits 30 bits, decoding the encoded trailer gives back the frame
  number, the packet number and both flags.
\<close>

theorem trailer_roundtrip:
  assumes "tf_packet_number x \<le> 0x3FFFFFFF"
  shows "get_frame_number t = frame_number t
       \<and> get_packet_number t = packet_number_flags t AND 0x3FFFFFFF
       \<and> get_start_of_frame_marker t = (packet_number_flags t AND push_bit 31 1 \<noteq> 0)
       \<and> get_end_of_frame_marker t = (packet_number_flags t AND push_bit 30 1 \<noteq> 0)
       \<and> get_frame_number (encode_trailer x) = tf_frame_number x
       \<and> get_packet_number (encode_trailer x) = tf_packet_number x
       \<and> get_start_of_frame_marker (encode_trailer x) = tf_start_of_frame x
       \<and> get_end_of_frame_marker (encode_trailer x) = tf_end_of_frame x
       \<and> decode_trailer (encode_trailer x) = x"
proof -
  have le: "tf_packet_number x \<le> packet_number_mask"
    using assms by (simp add: packet_number_mask_def)
  note r = rt_bits [OF le, of "tf_start_of_frame x" "tf_end_of_frame x"]
  have f: "get_frame_number (encode_trailer x) = tf_frame_number x"
    by (simp add: get_frame_number_def encode_trailer_def)
  have p: "get_packet_number (encode_trailer x) = tf_packet_number x"
    using r(1) by (simp add: get_packet_number_def encode_trailer_def)
  have s: "get_start_of_frame_marker (encode_trailer x) = tf_start_of_frame x"
    using r(2) by (simp add: get_start_of_frame_marker_def encode_trailer_def)
  have e: "get_end_of_frame_marker (encode_trailer x) = tf_end_of_frame x"
    using r(3) by (simp add: get_end_of_frame_marker_def encode_trailer_def)
  have d: "decode_trailer (encode_trailer x) = x"
    by (simp add: decode_trailer_def f p s e)
  have g: "get_packet_number t = packet_number_flags t AND 0x3FFFFFFF"
    by (simp add: get_packet_number_def packet_number_mask_def)
  have h: "get_start_of_frame_marker t = (packet_number_flags t AND push_bit 31 1 \<noteq> 0)"
    by (simp add: get_start_of_frame_marker_def start_of_frame_mask_def)
  have i: "get_end_of_frame_marker t = (packet_number_flags t AND push_bit 30 1 \<noteq> 0)"
    by (simp add: get_end_of_frame_marker_def end_of_frame_mask_def)
  show ?thesis using f p s e d g h i by (simp add: get_frame_number_def)
qed

text \<open>Witness for C4: packet 320 of frame 7 with the end-of-frame flag.\<close>

theorem trailer_roundtrip_witness:
  "(320 :: u32) \<le> 0x3FFFFFFF
   \<and> decode_trailer (encode_trailer \<lparr> tf_frame_number = 7, tf_packet_number = 320,
      tf_start_of_frame = False, tf_end_of_frame = True \<rparr>)
   = \<lparr> tf_frame_number = 7, tf_packet_number = 320,
      tf_start_of_frame = False, tf_end_of_frame = True \<rparr>
   \<and> packet_number_flags (encode_trailer \<lparr> tf_frame_number = 7, tf_packet_number = 320,
      tf_start_of_frame = False, tf_end_of_frame = True \<rparr>) = 0x40000140"
  using trailer_roundtrip [of "\<lparr> tf_frame_number = 7, tf_packet_number = 320,
      tf_start_of_frame = False, tf_end_of_frame = True \<rparr>"]
  by (simp add: encode_trailer_def end_of_frame_mask_def)

subsection \<open>Output offsets of the pixel loops\<close>

lemma scan_order_set:
  "p \<in> set (scan_order c) \<Longrightarrow>
     \<exists>pixel_row pixel_col asic_row asic_col.
       p = (pixel_row, pixel_col, asic_row, asic_col)
       \<and> pixel_row < num_pixel_rows_per_asic c \<and> pixel_col < num_pixel_cols_per_asic c
       \<and> asic_row < num_asic_rows c \<and> asic_col < num_asic_cols c"
  by (auto simp: scan_order_def)

lemma length_scan_order: "length (scan_order c) = geometry_pixels c"
  by (simp add: scan_order_def geometry_pixels_def length_concat comp_def sum_list_triv algebra_simps)

lemma tile_bound:
  fixes a r :: nat
  assumes "a < A" "r < R"
  shows "a * R + r < A * R"
proof -
  have "a * R + r < a * R + R" using assms by simp
  also have "\<dots> = (a + 1) * R" by (simp add: algebra_simps)
  also have "\<dots> \<le> A * R" using assms by (intro mult_le_mono1) simp
  finally show ?thesis .
qed

lemma output_offset_of_nat:
  "output_offset c (pixel_row, pixel_col, asic_row, asic_col) =
     of_nat ((asic_row * num_pixel_rows_per_asic c + pixel_row)
               * (num_asic_cols c * num_pixel_cols_per_asic c)
             + (asic_col * num_pixel_cols_per_asic c + pixel_col))"
  by (simp add: output_offset_def)

lemma unat_of_nat_le: "unat (of_nat n :: u32) \<le> n"
  by (simp add: unat_of_nat)

lemma output_offset_bound:
  assumes "p \<in> set (scan_order c)"
  shows "unat (output_offset c p) < geometry_pixels c"
proof -
  from scan_order_set [OF assms] obtain pixel_row pixel_col asic_row asic_col where
    p: "p = (pixel_row, pixel_col, asic_row, asic_col)"
    and b: "pixel_row < num_pixel_rows_per_asic c" "pixel_col < num_pixel_cols_per_asic c"
      "asic_row < num_asic_rows c" "asic_col < num_asic_cols c"
    by blast
  let ?row = "asic_row * num_pixel_rows_per_asic c + pixel_row"
  let ?col = "asic_col * num_pixel_cols_per_asic c + pixel_col"
  let ?w = "num_asic_cols c * num_pixel_cols_per_asic c"
  have row: "?row < num_asic_rows c * num_pixel_rows_per_asic c"
    using b by (intro tile_bound)
  have col: "?col < ?w" using b by (intro tile_bound)
  have "?row * ?w + ?col < (num_asic_rows c * num_pixel_rows_per_asic c) * ?w"
    using row col by (rule tile_bound)
  moreover have "unat (output_offset c p) \<le> ?row * ?w + ?col"
    unfolding p output_offset_of_nat by (rule unat_of_nat_le)
  ultimately show ?thesis by (simp add: geometry_pixels_def)
qed

lemma same_settings_refl: "same_settings s s"
  by (simp add: same_settings_def)

lemma same_settings_trans: "same_settings s s1 \<Longrightarrow> same_settings s1 s2 \<Longrightarrow> same_settings s s2"
  by (simp add: same_settings_def)

lemma emitted_iff:
  "emitted fr s images s' \<longleftrightarrow>
     (\<exists>new. pushed s' = pushed s @ new
        \<and> map label_of new = triplet_labels (hdr_frame_number (hdr fr)) (image_counter s) images)
     \<and> same_settings s s'"
proof -
  have "take (length (pushed s)) (pushed s') = pushed s
          \<longleftrightarrow> (\<exists>new. pushed s' = pushed s @ new)"
    by (metis append_eq_conv_conj append_take_drop_id)
  then show ?thesis
    unfolding emitted_def pushed_since_def by (metis append_eq_conv_conj)
qed

lemma emitted_Nil: "emitted fr s [] s"
  by (simp add: emitted_iff same_settings_refl)

lemma next_image_Some:
  "emitted fr s [i] (next_image fr image_size (Some b) i s)"
  "image_counter (next_image fr image_size (Some b) i s) = image_counter s + 1"
  by (simp_all add: emitted_iff next_image_def push_image_def label_of_def same_settings_def)

lemma next_image_None:
  "pushed (next_image fr image_size None i s) = pushed s"
  "same_settings s (next_image fr image_size None i s)"
  by (simp_all add: next_image_def push_image_def same_settings_def)

lemma emitted_Cons:
  assumes "emitted fr s [i] s1" and "image_counter s1 = image_counter s + 1"
    and "emitted fr s1 images s2"
  shows "emitted fr s (i # images) s2"
proof -
  from assms(1) obtain new1 where
    n1: "pushed s1 = pushed s @ new1"
      "map label_of new1 = triplet_labels (hdr_frame_number (hdr fr)) (image_counter s) [i]"
    and k1: "same_settings s s1"
    unfolding emitted_iff by blast
  from assms(3) obtain new2 where
    n2: "pushed s2 = pushed s1 @ new2"
      "map label_of new2 = triplet_labels (hdr_frame_number (hdr fr)) (image_counter s1) images"
    and k2: "same_settings s1 s2"
    unfolding emitted_iff by blast
  have "pushed s2 = pushed s @ (new1 @ new2)" using n1 n2 by simp
  moreover have "map label_of (new1 @ new2)
      = triplet_labels (hdr_frame_number (hdr fr)) (image_counter s) (i # images)"
    using n1(2) n2(2) assms(2) by simp
  ultimately show ?thesis
    unfolding emitted_iff using same_settings_trans [OF k1 k2] by blast
qed

subsection \<open>The pixel loops\<close>

lemma copy_pixel_None: "copy_pixel c fr idx p (None, l) = Inl NullPointerWrite"
  by (simp add: copy_pixel_def store_pixel_def Let_def)

lemma copy_pixels_None:
  "ps \<noteq> [] \<Longrightarrow> copy_pixels c fr idx ps (None, l) = Inl NullPointerWrite"
  by (cases ps) (simp_all add: copy_pixel_None)

lemma copy_pixel_Some:
  "copy_pixel c fr idx p (Some b, l) =
     (if unat (output_offset c p) < length b
      then Inr (Some (b[unat (output_offset c p) := pixel_value c fr idx (next_packet (hdr fr) l)]),
                (next_packet (hdr fr) l)\<lparr>pixel_offset := pixel_offset (next_packet (hdr fr) l) + 1\<rparr>)
      else Inl (OutOfBoundsWrite (unat (output_offset c p))))"
  by (simp add: copy_pixel_def store_pixel_def Let_def)

lemma copy_pixels_Some_Inr:
  "copy_pixels c fr idx ps (Some b, l) = Inr (img, l') \<Longrightarrow>
     \<exists>b'. img = Some b' \<and> length b' = length b"
proof (induction ps arbitrary: b l)
  case Nil
  then show ?case by auto
next
  case (Cons p ps)
  show ?case
  proof (cases "unat (output_offset c p) < length b")
    case True
    with Cons.prems have "copy_pixels c fr idx ps
        (Some (b[unat (output_offset c p) := pixel_value c fr idx (next_packet (hdr fr) l)]),
         (next_packet (hdr fr) l)\<lparr>pixel_offset := pixel_offset (next_packet (hdr fr) l) + 1\<rparr>)
        = Inr (img, l')"
      by (simp add: copy_pixel_Some)
    from Cons.IH [OF this] show ?thesis by simp
  next
    case False
    with Cons.prems show ?thesis by (simp add: copy_pixel_Some)
  qed
qed

lemma copy_pixels_fits:
  "\<forall>p\<in>set ps. unat (output_offset c p) < length b \<Longrightarrow>
     \<exists>b' l'. copy_pixels c fr idx ps (Some b, l) = Inr (Some b', l') \<and> length b' = length b"
proof (induction ps arbitrary: b l)
  case Nil
  then show ?case by simp
next
  case (Cons p ps)
  let ?b = "b[unat (output_offset c p) := pixel_value c fr idx (next_packet (hdr fr) l)]"
  let ?l = "(next_packet (hdr fr) l)\<lparr>pixel_offset := pixel_offset (next_packet (hdr fr) l) + 1\<rparr>"
  have "\<forall>q\<in>set ps. unat (output_offset c q) < length ?b" using Cons.prems by simp
  from Cons.IH [OF this, of ?l] obtain b' l' where
    "copy_pixels c fr idx ps (Some ?b, ?l) = Inr (Some b', l')" "length b' = length ?b"
    by blast
  with Cons.prems show ?case by (simp add: copy_pixel_Some)
qed

subsection \<open>The image loop\<close>

lemma image_loop_Cons_Some:
  "image_loop c fr idx image_size (i # images) (Some b, l, s) =
     (case copy_pixels c fr idx (scan_order c) (Some b, l) of
        Inl f \<Rightarrow> Inl (f, s)
      | Inr (img, l') \<Rightarrow>
          image_loop c fr idx image_size images (img, l', next_image fr image_size img i s))"
  by (simp add: next_image_def Let_def split: sum.splits prod.splits)

lemma image_loop_Some_Inr:
  "image_loop c fr idx image_size images (Some b, l, s) = Inr (img, l', s') \<Longrightarrow>
     (\<exists>b'. img = Some b' \<and> length b' = length b)
     \<and> emitted fr s images s'
     \<and> image_counter s' = image_counter s + of_nat (length images)"
proof (induction images arbitrary: b l s)
  case Nil
  then show ?case by (auto simp: emitted_Nil)
next
  case (Cons i images)
  from Cons.prems obtain img1 l1 where
    px: "copy_pixels c fr idx (scan_order c) (Some b, l) = Inr (img1, l1)"
    and rest: "image_loop c fr idx image_size images (img1, l1, next_image fr image_size img1 i s)
                 = Inr (img, l', s')"
    by (auto simp: image_loop_Cons_Some simp del: image_loop.simps split: sum.splits prod.splits)
  from copy_pixels_Some_Inr [OF px] obtain b1 where
    b1: "img1 = Some b1" "length b1 = length b" by blast
  let ?s1 = "next_image fr image_size (Some b1) i s"
  from Cons.IH [OF rest [unfolded b1(1)]] have
    ih: "\<exists>b'. img = Some b' \<and> length b' = length b1"
      "emitted fr ?s1 images s'"
      "image_counter s' = image_counter ?s1 + of_nat (length images)"
    by blast+
  have e1: "emitted fr s [i] ?s1" by (rule next_image_Some(1))
  have c1: "image_counter ?s1 = image_counter s + 1" by (rule next_image_Some(2))
  have "emitted fr s (i # images) s'"
    using e1 c1 ih(2) by (rule emitted_Cons)
  moreover have "image_counter s' = image_counter s + of_nat (length (i # images))"
    using ih(3) c1 by simp
  ultimately show ?case using ih(1) b1(2) by simp
qed

lemma image_loop_Some_Inl:
  "image_loop c fr idx image_size images (Some b, l, s) = Inl (f, s') \<Longrightarrow>
     \<exists>k. k < length images \<and> emitted fr s (take k images) s'"
proof (induction images arbitrary: b l s)
  case Nil
  then show ?case by simp
next
  case (Cons i images)
  show ?case
  proof (cases "copy_pixels c fr idx (scan_order c) (Some b, l)")
    case (Inl f')
    with Cons.prems have "s' = s" by (simp add: image_loop_Cons_Some del: image_loop.simps)
    then have "emitted fr s (take 0 (i # images)) s'" by (simp add: emitted_Nil)
    then show ?thesis by blast
  next
    case (Inr st)
    obtain img1 l1 where st: "st = (img1, l1)" by (cases st)
    from copy_pixels_Some_Inr [OF Inr [unfolded st]] obtain b1 where
      b1: "img1 = Some b1" "length b1 = length b" by blast
    let ?s1 = "next_image fr image_size (Some b1) i s"
    from Cons.prems Inr st b1 have
      "image_loop c fr idx image_size images (Some b1, l1, ?s1) = Inl (f, s')"
      by (simp add: image_loop_Cons_Some del: image_loop.simps)
    from Cons.IH [OF this] obtain k where
      k: "k < length images" "emitted fr ?s1 (take k images) s'" by blast
    have e1: "emitted fr s [i] ?s1" by (rule next_image_Some(1))
    have c1: "image_counter ?s1 = image_counter s + 1" by (rule next_image_Some(2))
    have "emitted fr s (i # take k images) s'"
      using e1 c1 k(2) by (rule emitted_Cons)
    then have "emitted fr s (take (Suc k) (i # images)) s'" by simp
    moreover have "Suc k < length (i # images)" using k(1) by simp
    ultimately show ?thesis by blast
  qed
qed

lemma image_loop_fits:
  "\<forall>p\<in>set (scan_order c). unat (output_offset c p) < length b \<Longrightarrow>
     \<exists>b' l' s'. image_loop c fr idx image_size images (Some b, l, s) = Inr (Some b', l', s')"
proof (induction images arbitrary: b l s)
  case Nil
  then show ?case by simp
next
  case (Cons i images)
  from copy_pixels_fits [OF Cons.prems] obtain b1 l1 where
    px: "copy_pixels c fr idx (scan_order c) (Some b, l) = Inr (Some b1, l1)"
    and len: "length b1 = length b" by blast
  have "\<forall>p\<in>set (scan_order c). unat (output_offset c p) < length b1"
    using Cons.prems len by simp
  from Cons.IH [OF this] show ?case
    by (simp add: image_loop_Cons_Some px del: image_loop.simps)
qed

lemma image_loop_None:
  "image_loop c fr idx image_size images (None, l, s) = r \<Longrightarrow>
     (case r of
        Inl (f, s') \<Rightarrow> pushed s' = pushed s \<and> same_settings s s'
      | Inr (img, l', s') \<Rightarrow> img = None \<and> pushed s' = pushed s \<and> same_settings s s')"
proof (induction images arbitrary: l s r)
  case Nil
  then show ?case by (auto simp: same_settings_refl)
next
  case (Cons i images)
  show ?case
  proof (cases "scan_order c = []")
    case True
    with Cons.prems have
      "image_loop c fr idx image_size images (None, l, next_image fr image_size None i s) = r"
      by (simp add: next_image_def Let_def)
    from Cons.IH [OF this] show ?thesis
      using next_image_None(1) [where s = s and i = i and fr = fr and image_size = image_size]
        next_image_None(2) [where s = s and i = i and fr = fr and image_size = image_size]
      by (auto split: sum.splits prod.splits intro: same_settings_trans)
  next
    case False
    with Cons.prems have "r = Inl (NullPointerWrite, s)"
      by (simp add: copy_pixels_None)
    then show ?thesis by (simp add: same_settings_refl)
  qed
qed

lemma sint_nonneg:
  fixes w :: u32
  assumes "unat w < 2 ^ 31"
  shows "0 \<le> sint w"
proof -
  have "int (unat w) < int (2 ^ 31)" using assms by (simp only: of_nat_less_iff)
  then have "uint w < 2 ^ 31" by simp
  then have "signed_take_bit 31 (uint w) = uint w"
    by (intro signed_take_bit_int_eq_self) (simp_all add: order_trans [of _ 0])
  then have "sint w = uint w" by (simp add: sint_uint)
  then show ?thesis by simp
qed

lemma allocate_fits:
  assumes "malloc_succeeds env"
    and "image_pixels s = image_width s * image_height s"
    and "unat (image_width s) * unat (image_height s) < 2 ^ 30"
  shows "\<exists>b. allocate env s = Some b
           \<and> length b = unat (image_width s) * unat (image_height s)"
proof -
  define n where "n = unat (image_width s) * unat (image_height s)"
  have n: "n < 2 ^ 30" using assms(3) by (simp add: n_def)
  have "unat (image_width s) * unat (image_height s) < 2 ^ LENGTH(32)"
    using n by (simp add: n_def)
  then have "unat (image_width s * image_height s) = n"
    unfolding n_def by (rule unat_mult_lem [THEN iffD1])
  then have p: "unat (image_pixels s) = n" using assms(2) by simp
  have "unat (image_pixels s) * unat (2 :: u32) < 2 ^ LENGTH(32)" using p n by simp
  then have "unat (image_pixels s * 2) = unat (image_pixels s) * unat (2 :: u32)"
    by (rule unat_mult_lem [THEN iffD1])
  then have b: "unat (image_pixels s * 2) = 2 * n" using p by simp
  then have "unat (image_pixels s * 2) < 2 ^ 31" using n by simp
  then have "0 \<le> sint (image_pixels s * 2)" by (rule sint_nonneg)
  then have "allocate env s = Some (map (malloc_contents env) [0..<n])"
    using assms(1) b by (simp add: allocate_def Let_def)
  then show ?thesis by (simp add: n_def)
qed

lemma allocate_fails: "\<not> malloc_succeeds env \<Longrightarrow> allocate env s = None"
  by (simp add: allocate_def Let_def)

subsection \<open>The loop over the active FEMs\<close>

lemma fem_loop_None:
  "fem_loop c fr image_size idxs (None, s) = r \<Longrightarrow>
     (case r of
        Inl (f, s') \<Rightarrow> pushed s' = pushed s \<and> same_settings s s'
      | Inr (img, s') \<Rightarrow> pushed s' = pushed s \<and> same_settings s s')"
proof (induction idxs arbitrary: s r)
  case Nil
  then show ?case by (auto simp: same_settings_refl)
next
  case (Cons idx idxs)
  let ?r1 = "image_loop c fr idx image_size [0..<unat (num_images s)]
               (None, first_packet (hdr fr), s)"
  have il: "case ?r1 of
        Inl (f, s') \<Rightarrow> pushed s' = pushed s \<and> same_settings s s'
      | Inr (img, l', s') \<Rightarrow> img = None \<and> pushed s' = pushed s \<and> same_settings s s'"
    by (rule image_loop_None [OF refl])
  show ?case
  proof (cases ?r1)
    case (Inl e)
    with Cons.prems il show ?thesis by (auto split: prod.splits)
  next
    case (Inr st)
    obtain img l1 s1 where st: "st = (img, l1, s1)" by (cases st)
    from il Inr st have s1: "pushed s1 = pushed s" "same_settings s s1" by auto
    from Cons.prems Inr st have "fem_loop c fr image_size idxs (None, s1) = r" by simp
    from Cons.IH [OF this] show ?thesis
      using s1 by (auto split: sum.splits prod.splits intro: same_settings_trans)
  qed
qed

lemma emitted_extend:
  "emitted fr s images s1 \<Longrightarrow> pushed s2 = pushed s1 \<Longrightarrow> same_settings s1 s2 \<Longrightarrow>
     emitted fr s images s2"
  unfolding emitted_iff by (auto intro: same_settings_trans)

lemma fem_loop_Some:
  "fem_loop c fr image_size idxs (Some b, s) = r \<Longrightarrow>
     \<exists>m. m \<le> unat (num_images s)
       \<and> (case r of Inl (f, s') \<Rightarrow> emitted fr s [0..<m] s'
                   | Inr (img, s') \<Rightarrow> emitted fr s [0..<m] s')"
proof (cases idxs)
  case Nil
  assume "fem_loop c fr image_size idxs (Some b, s) = r"
  with Nil have "r = Inr (Some b, s)" by simp
  then have "0 \<le> unat (num_images s) \<and>
      (case r of Inl (f, s') \<Rightarrow> emitted fr s [0..<0] s'
               | Inr (img, s') \<Rightarrow> emitted fr s [0..<0] s')"
    by (simp add: emitted_Nil)
  then show ?thesis by blast
next
  case (Cons idx rest)
  assume run: "fem_loop c fr image_size idxs (Some b, s) = r"
  let ?n = "unat (num_images s)"
  let ?r1 = "image_loop c fr idx image_size [0..<?n] (Some b, first_packet (hdr fr), s)"
  show ?thesis
  proof (cases ?r1)
    case (Inl e)
    obtain f s' where e: "e = (f, s')" by (cases e)
    from image_loop_Some_Inl [OF Inl [unfolded e]] obtain k where
      k: "k < ?n" "emitted fr s (take k [0..<?n]) s'" by auto
    have "take k [0..<?n] = [0..<k]" using k(1) by (simp add: take_upt)
    with k have "emitted fr s [0..<k] s'" by simp
    moreover have "r = Inl (f, s')" using run Cons Inl e by simp
    ultimately have "k \<le> ?n \<and>
        (case r of Inl (f, s') \<Rightarrow> emitted fr s [0..<k] s'
                 | Inr (img, s') \<Rightarrow> emitted fr s [0..<k] s')"
      using k(1) by simp
    then show ?thesis by blast
  next
    case (Inr st)
    obtain img l1 s1 where st: "st = (img, l1, s1)" by (cases st)
    from image_loop_Some_Inr [OF Inr [unfolded st]] have
      e1: "emitted fr s [0..<?n] s1" by simp
    from run Cons Inr st have r: "fem_loop c fr image_size rest (None, s1) = r" by simp
    from fem_loop_None [OF r] e1 have
      "case r of Inl (f, s') \<Rightarrow> emitted fr s [0..<?n] s'
               | Inr (img, s') \<Rightarrow> emitted fr s [0..<?n] s'"
      by (auto split: sum.splits prod.splits intro: emitted_extend)
    then have "?n \<le> ?n \<and>
        (case r of Inl (f, s') \<Rightarrow> emitted fr s [0..<?n] s'
                 | Inr (img, s') \<Rightarrow> emitted fr s [0..<?n] s')"
      by simp
    then show ?thesis by blast
  qed
qed

lemma fem_loop_single:
  assumes "\<forall>p\<in>set (scan_order c). unat (output_offset c p) < length b"
  shows "\<exists>s'. fem_loop c fr image_size [idx] (Some b, s) = Inr (None, s')
           \<and> emitted fr s [0..<unat (num_images s)] s'
           \<and> image_counter s' = image_counter s + of_nat (unat (num_images s))"
proof -
  from image_loop_fits [OF assms] obtain b' l' s' where
    il: "image_loop c fr idx image_size [0..<unat (num_images s)]
           (Some b, first_packet (hdr fr), s) = Inr (Some b', l', s')"
    by blast
  from image_loop_Some_Inr [OF il] have
    "emitted fr s [0..<unat (num_images s)] s'"
    "image_counter s' = image_counter s + of_nat (unat (num_images s))"
    by simp_all
  moreover have "fem_loop c fr image_size [idx] (Some b, s) = Inr (None, s')"
    using il by simp
  ultimately show ?thesis by blast
qed

subsection \<open>The whole reordering\<close>

lemma reorder_frame_pushed:
  "\<exists>m. m \<le> unat (num_images s)
     \<and> take (length (pushed s)) (pushed (final_state (reorder_frame c env fr s))) = pushed s
     \<and> map label_of (pushed_since s (final_state (reorder_frame c env fr s)))
         = triplet_labels (hdr_frame_number (hdr fr)) (image_counter s) [0..<m]
     \<and> packets_lost (final_state (reorder_frame c env fr s)) = packets_lost s"
proof (cases "allocate env s")
  case None
  then have "final_state (reorder_frame c env fr s) = s\<lparr>error_log := error_log s @
      [DecodeFailed ''LPD frame decode failed: Failed to allocate temporary buffer for reordered image'']\<rparr>"
    by (simp add: reorder_frame_def)
  then have "0 \<le> unat (num_images s)
     \<and> take (length (pushed s)) (pushed (final_state (reorder_frame c env fr s))) = pushed s
     \<and> map label_of (pushed_since s (final_state (reorder_frame c env fr s)))
         = triplet_labels (hdr_frame_number (hdr fr)) (image_counter s) [0..<0]
     \<and> packets_lost (final_state (reorder_frame c env fr s)) = packets_lost s"
    by (simp add: pushed_since_def)
  then show ?thesis by blast
next
  case (Some b)
  let ?r = "fem_loop c fr (image_width s * image_height s * 2)
              [0..<unat (num_active_fems (hdr fr))] (Some b, s)"
  have "\<exists>m. m \<le> unat (num_images s)
       \<and> (case ?r of Inl (f, s') \<Rightarrow> emitted fr s [0..<m] s'
                   | Inr (img, s') \<Rightarrow> emitted fr s [0..<m] s')"
    by (rule fem_loop_Some [OF refl])
  then obtain m where
    m: "m \<le> unat (num_images s)"
      "case ?r of Inl (f, s') \<Rightarrow> emitted fr s [0..<m] s'
                | Inr (img, s') \<Rightarrow> emitted fr s [0..<m] s'"
    by blast
  have "emitted fr s [0..<m] (final_state (reorder_frame c env fr s))"
    using m(2) Some by (auto simp: reorder_frame_def Let_def split: sum.splits prod.splits)
  then have "take (length (pushed s)) (pushed (final_state (reorder_frame c env fr s))) = pushed s
     \<and> map label_of (pushed_since s (final_state (reorder_frame c env fr s)))
         = triplet_labels (hdr_frame_number (hdr fr)) (image_counter s) [0..<m]
     \<and> packets_lost (final_state (reorder_frame c env fr s)) = packets_lost s"
    by (simp add: emitted_def same_settings_def)
  with m(1) show ?thesis by blast
qed

subsection \<open>Loss accounting, configuration, allocation failure\<close>

lemma process_lost_packets_fields:
  "image_width (process_lost_packets c h s) = image_width s"
  "image_height (process_lost_packets c h s) = image_height s"
  "image_pixels (process_lost_packets c h s) = image_pixels s"
  "num_images (process_lost_packets c h s) = num_images s"
  "image_counter (process_lost_packets c h s) = image_counter s"
  "pushed (process_lost_packets c h s) = pushed s"
  by (simp_all add: process_lost_packets_def Let_def)

lemma max_int_diff: "max 0 (int a - int b) = int (a - b)"
  by (cases "b \<le> a") simp_all

lemma process_lost_packets_counter:
  "packets_lost (process_lost_packets c h s) =
     packets_lost s + word_of_int (max 0 (int (num_packets c * unat (num_active_fems h))
                                           - int (unat (total_packets_received h))))"
proof -
  let ?e = "num_packets c * unat (num_active_fems h)"
  let ?r = "unat (total_packets_received h)"
  have "packets_lost (process_lost_packets c h s) = packets_lost s + of_nat (?e - ?r)"
    by (simp add: process_lost_packets_def Let_def del: of_nat_mult of_nat_diff)
  also have "(of_nat (?e - ?r) :: u32) = word_of_int (int (?e - ?r))"
    by (simp only: word_of_int_nat of_nat_0_le_iff nat_int)
  finally show ?thesis by (simp only: max_int_diff)
qed

text \<open>
  Claim C3. \<open>process_frame\<close> is the reordering applied to the state that
  \<open>process_lost_packets\<close> leaves, and the reordering never touches the counter; so for
  every frame, whatever the outcome, \<open>packets_lost\<close> has grown by
  \<open>max 0 (expected - received)\<close> (modulo \<open>2 ^ 32\<close>), where \<open>expected\<close> is
  \<open>num_packets\<close> times \<open>num_active_fems\<close>, and is unchanged when
  \<open>total_packets_received\<close> is at least that.
\<close>

theorem process_frame_packets_lost:
  "packets_lost (final_state (process_frame c env fr s)) =
     packets_lost s + word_of_int (max 0 (int (num_packets c * unat (num_active_fems (hdr fr)))
                                           - int (unat (total_packets_received (hdr fr)))))
   \<and> (num_packets c * unat (num_active_fems (hdr fr)) \<le> unat (total_packets_received (hdr fr))
        \<longrightarrow> packets_lost (final_state (process_frame c env fr s)) = packets_lost s)
   \<and> process_frame c env fr s = reorder_frame c env fr (process_lost_packets c (hdr fr) s)
   \<and> packets_lost (final_state (reorder_frame c env fr s)) = packets_lost s"
proof -
  have r: "packets_lost (final_state (reorder_frame c env fr s')) = packets_lost s'" for s'
    using reorder_frame_pushed [of s' c env fr] by blast
  have a: "packets_lost (final_state (process_frame c env fr s)) =
     packets_lost s + word_of_int (max 0 (int (num_packets c * unat (num_active_fems (hdr fr)))
                                           - int (unat (total_packets_received (hdr fr)))))"
    by (simp only: process_frame_def r process_lost_packets_counter)
  have b: "num_packets c * unat (num_active_fems (hdr fr)) \<le> unat (total_packets_received (hdr fr))
        \<longrightarrow> packets_lost (final_state (process_frame c env fr s)) = packets_lost s"
    by (simp add: process_frame_def r process_lost_packets_def)
  show ?thesis using a b r by (simp add: process_frame_def)
qed

text \<open>
  Witness for C3: a frame with all 321 packets leaves the counter at 0, one with 320
  packets raises it to 1.
\<close>

theorem process_frame_packets_lost_witness:
  "num_packets example_constants * unat (num_active_fems (hdr (example_frame [False])))
     \<le> unat (total_packets_received (hdr (example_frame [False])))
   \<and> packets_lost (final_state (process_frame example_constants (example_malloc True)
        (example_frame [False]) (example_plugin 2 2 2))) = 0
   \<and> packets_lost (final_state (process_frame example_constants (example_malloc True)
        (example_frame [True]) (example_plugin 2 2 2))) = 1"
proof -
  note defs = example_constants_def example_frame_def example_header_def example_fem_state_def example_plugin_def
    configure_def LpdProcessPlugin_def CONFIG_DROPPED_PACKETS_def CONFIG_IMAGE_WIDTH_def
    CONFIG_IMAGE_HEIGHT_def CONFIG_NUM_IMAGES_def
  have a: "num_packets example_constants * unat (num_active_fems (hdr (example_frame [False])))
     \<le> unat (total_packets_received (hdr (example_frame [False])))"
    by (simp add: defs)
  have "packets_lost (final_state (process_frame example_constants (example_malloc True)
        (example_frame [False]) (example_plugin 2 2 2))) = packets_lost (example_plugin 2 2 2)"
    using a process_frame_packets_lost [of example_constants "example_malloc True"
      "example_frame [False]" "example_plugin 2 2 2"] by blast
  then have b: "packets_lost (final_state (process_frame example_constants (example_malloc True)
        (example_frame [False]) (example_plugin 2 2 2))) = 0"
    by (simp add: defs)
  have "packets_lost (final_state (process_frame example_constants (example_malloc True)
        (example_frame [True]) (example_plugin 2 2 2)))
      = packets_lost (example_plugin 2 2 2)
        + word_of_int (max 0 (int (num_packets example_constants
              * unat (num_active_fems (hdr (example_frame [True]))))
            - int (unat (total_packets_received (hdr (example_frame [True]))))))"
    using process_frame_packets_lost [of example_constants "example_malloc True"
      "example_frame [True]" "example_plugin 2 2 2"] by blast
  then have c: "packets_lost (final_state (process_frame example_constants (example_malloc True)
        (example_frame [True]) (example_plugin 2 2 2))) = 1"
    by (simp add: defs)
  show ?thesis using a b c by blast
qed

text \<open>
  Claim C9. \<open>configure\<close> sets \<open>packets_lost\<close> to the value supplied under that
  key; each of the four parameters whose key is absent keeps its value; \<open>image_pixels\<close>
  becomes width times height; the image counter, the frames pushed so far and the error log
  (everything else the plugin holds) are untouched.
\<close>

theorem configure_effect:
  "(config CONFIG_DROPPED_PACKETS = Some v \<longrightarrow> packets_lost (configure config s) = v)
   \<and> (config CONFIG_DROPPED_PACKETS = None \<longrightarrow> packets_lost (configure config s) = packets_lost s)
   \<and> (config CONFIG_IMAGE_WIDTH = None \<longrightarrow> image_width (configure config s) = image_width s)
   \<and> (config CONFIG_IMAGE_HEIGHT = None \<longrightarrow> image_height (configure config s) = image_height s)
   \<and> (config CONFIG_NUM_IMAGES = None \<longrightarrow> num_images (configure config s) = num_images s)
   \<and> image_pixels (configure config s)
        = image_width (configure config s) * image_height (configure config s)
   \<and> image_counter (configure config s) = image_counter s
   \<and> pushed (configure config s) = pushed s
   \<and> error_log (configure config s) = error_log s"
  by (simp add: configure_def Let_def split: option.splits)

text \<open>Witness for C9: messages with and without each key, applied to the initial plugin.\<close>

theorem configure_effect_witness:
  "[CONFIG_DROPPED_PACKETS \<mapsto> 5, CONFIG_IMAGE_WIDTH \<mapsto> 4] CONFIG_DROPPED_PACKETS = Some (5 :: u32)
   \<and> [CONFIG_DROPPED_PACKETS \<mapsto> 5 :: u32, CONFIG_IMAGE_WIDTH \<mapsto> 4] CONFIG_IMAGE_HEIGHT = None
   \<and> [CONFIG_DROPPED_PACKETS \<mapsto> 5 :: u32, CONFIG_IMAGE_WIDTH \<mapsto> 4] CONFIG_NUM_IMAGES = None
   \<and> [CONFIG_IMAGE_WIDTH \<mapsto> 4 :: u32] CONFIG_DROPPED_PACKETS = None
   \<and> [CONFIG_DROPPED_PACKETS \<mapsto> 5 :: u32] CONFIG_IMAGE_WIDTH = None
   \<and> packets_lost (configure [CONFIG_DROPPED_PACKETS \<mapsto> 5, CONFIG_IMAGE_WIDTH \<mapsto> 4]
        LpdProcessPlugin) = 5
   \<and> image_height (configure [CONFIG_DROPPED_PACKETS \<mapsto> 5, CONFIG_IMAGE_WIDTH \<mapsto> 4]
        LpdProcessPlugin) = 256
   \<and> num_images (configure [CONFIG_DROPPED_PACKETS \<mapsto> 5, CONFIG_IMAGE_WIDTH \<mapsto> 4]
        LpdProcessPlugin) = 20
   \<and> packets_lost (configure [CONFIG_IMAGE_WIDTH \<mapsto> 4] LpdProcessPlugin) = 0
   \<and> image_width (configure [CONFIG_DROPPED_PACKETS \<mapsto> 5] LpdProcessPlugin) = 256
   \<and> image_counter (configure [CONFIG_DROPPED_PACKETS \<mapsto> 5, CONFIG_IMAGE_WIDTH \<mapsto> 4]
        LpdProcessPlugin) = 0"
  using configure_effect [of "[CONFIG_DROPPED_PACKETS \<mapsto> 5, CONFIG_IMAGE_WIDTH \<mapsto> 4]" 5
      LpdProcessPlugin]
    configure_effect [of "[CONFIG_IMAGE_WIDTH \<mapsto> 4]" 0 LpdProcessPlugin]
    configure_effect [of "[CONFIG_DROPPED_PACKETS \<mapsto> 5]" 5 LpdProcessPlugin]
  by (simp add: LpdProcessPlugin_def CONFIG_DROPPED_PACKETS_def CONFIG_IMAGE_WIDTH_def
      CONFIG_IMAGE_HEIGHT_def CONFIG_NUM_IMAGES_def)

text \<open>
  Claim C8. When the allocation of the buffer fails, \<open>process_frame\<close> returns
  normally: nothing is pushed for the frame and the frames pushed before stay as they are,
  the image counter does not move, one \<open>DecodeFailed\<close> error is logged after whatever
  \<open>process_lost_packets\<close> logged, and the counter keeps the value
  \<open>process_lost_packets\<close> gave it.
\<close>

theorem allocation_failure_aborts_frame:
  assumes "allocate env s = None"
  shows "crashed (process_frame c env fr s) = None
    \<and> pushed (final_state (process_frame c env fr s)) = pushed s
    \<and> image_counter (final_state (process_frame c env fr s)) = image_counter s
    \<and> error_log (final_state (process_frame c env fr s))
        = error_log (process_lost_packets c (hdr fr) s) @
          [DecodeFailed ''LPD frame decode failed: Failed to allocate temporary buffer for reordered image'']
    \<and> packets_lost (final_state (process_frame c env fr s))
        = packets_lost (process_lost_packets c (hdr fr) s)"
proof -
  have "allocate env (process_lost_packets c (hdr fr) s) = allocate env s"
    by (simp add: allocate_def process_lost_packets_fields)
  then have "allocate env (process_lost_packets c (hdr fr) s) = None"
    using assms by simp
  then show ?thesis
    by (simp add: process_frame_def reorder_frame_def process_lost_packets_fields)
qed

text \<open>Witness for C8: a frame with 320 of 321 packets and a failing \<open>malloc\<close>.\<close>

theorem allocation_failure_aborts_frame_witness:
  "allocate (example_malloc False) (example_plugin 2 2 2) = None
   \<and> process_frame example_constants (example_malloc False) (example_frame [True])
       (example_plugin 2 2 2)
     = Returned ((example_plugin 2 2 2)
         \<lparr> packets_lost := 1,
           error_log := [FrameDroppedPackets 7 1, TotalPacketsLost 1,
             DecodeFailed ''LPD frame decode failed: Failed to allocate temporary buffer for reordered image''] \<rparr>)"
proof -
  have a: "allocate (example_malloc False) (example_plugin 2 2 2) = None"
    by (simp add: allocate_def example_malloc_def)
  note t = allocation_failure_aborts_frame [OF a, of example_constants "example_frame [True]"]
  have "crashed (process_frame example_constants (example_malloc False)
      (example_frame [True]) (example_plugin 2 2 2)) = None"
    using t by blast
  then have "process_frame example_constants (example_malloc False) (example_frame [True])
       (example_plugin 2 2 2)
     = Returned ((example_plugin 2 2 2)
         \<lparr> packets_lost := 1,
           error_log := [FrameDroppedPackets 7 1, TotalPacketsLost 1,
             DecodeFailed ''LPD frame decode failed: Failed to allocate temporary buffer for reordered image''] \<rparr>)"
    by (simp add: example_malloc_def process_frame_def reorder_frame_def allocate_def
      process_lost_packets_def example_constants_def example_frame_def example_header_def
      example_fem_state_def example_plugin_def configure_def LpdProcessPlugin_def CONFIG_DROPPED_PACKETS_def
      CONFIG_IMAGE_WIDTH_def CONFIG_IMAGE_HEIGHT_def CONFIG_NUM_IMAGES_def)
  with a show ?thesis by blast
qed

subsection \<open>Reordering a frame\<close>

lemma triplet_labels_upt_aux:
  "triplet_labels fn counter [a..<a + k] =
     concat (map (\<lambda>j. [(''data'', counter + of_nat j, None),
                         (''img_num'', counter + of_nat j, Some (of_nat (a + j))),
                         (''frame_num'', counter + of_nat j, Some fn)]) [0..<k])"
proof (induction k arbitrary: a counter)
  case 0
  then show ?case by simp
next
  case (Suc k)
  have "[a..<a + Suc k] = a # [Suc a..<a + Suc k]" by (rule upt_conv_Cons) simp
  then have "[a..<a + Suc k] = a # [Suc a..<Suc a + k]" by simp
  moreover have "[0..<Suc k] = 0 # [Suc 0..<Suc k]" by (rule upt_conv_Cons) simp
  then have "[0..<Suc k] = 0 # map Suc [0..<k]" by (simp only: map_Suc_upt)
  ultimately show ?case
    using Suc.IH [of "counter + 1" "Suc a"]
    by (simp add: comp_def add_ac del: upt_Suc)
qed

lemma triplet_labels_upt:
  "triplet_labels fn counter [0..<m] =
     concat (map (\<lambda>j. [(''data'', counter + of_nat j, None),
                         (''img_num'', counter + of_nat j, Some (of_nat j)),
                         (''frame_num'', counter + of_nat j, Some fn)]) [0..<m])"
  using triplet_labels_upt_aux [of fn counter 0 m] by simp

lemma length_triplet_labels: "length (triplet_labels fn counter images) = 3 * length images"
  by (induction images arbitrary: counter) simp_all

lemma reorder_frame_single_fem:
  assumes "malloc_succeeds env"
    and "image_pixels s = image_width s * image_height s"
    and "unat (image_width s) * unat (image_height s) < 2 ^ 30"
    and "geometry_pixels c \<le> unat (image_width s) * unat (image_height s)"
    and "num_active_fems (hdr fr) = 1"
  shows "\<exists>s'. reorder_frame c env fr s = Returned s'
           \<and> emitted fr s [0..<unat (num_images s)] s'
           \<and> image_counter s' = image_counter s + of_nat (unat (num_images s))"
proof -
  from allocate_fits [OF assms(1-3)] obtain b where
    b: "allocate env s = Some b" "length b = unat (image_width s) * unat (image_height s)"
    by blast
  have fits: "\<forall>p\<in>set (scan_order c). unat (output_offset c p) < length b"
  proof
    fix p assume "p \<in> set (scan_order c)"
    from output_offset_bound [OF this] show "unat (output_offset c p) < length b"
      using assms(4) b(2) by simp
  qed
  from fem_loop_single [OF fits] obtain s' where
    "fem_loop c fr (image_width s * image_height s * 2) [0] (Some b, s) = Inr (None, s')"
    "emitted fr s [0..<unat (num_images s)] s'"
    "image_counter s' = image_counter s + of_nat (unat (num_images s))"
    by blast
  then show ?thesis using b(1) assms(5) by (simp add: reorder_frame_def)
qed

lemma reorder_frame_no_fem:
  assumes "malloc_succeeds env"
    and "image_pixels s = image_width s * image_height s"
    and "unat (image_width s) * unat (image_height s) < 2 ^ 30"
    and "num_active_fems (hdr fr) = 0"
  shows "reorder_frame c env fr s = Returned s"
proof -
  from allocate_fits [OF assms(1-3)] obtain b where "allocate env s = Some b" by blast
  then show ?thesis using assms(4) by (simp add: reorder_frame_def)
qed

text \<open>
  Claim C5, as amended. When the allocation succeeds, \<open>image_pixels\<close> is the product of
  the configured width and height, that product is below \<open>2 ^ 30\<close> and at least the
  number of pixels of the detector geometry, and the frame has at most one active FEM, then
  for every \<open>num_images\<close> and every content of \<open>packet_state\<close> no write of
  \<open>process_frame\<close> leaves the buffer: processing ends without a fault, and every offset
  the pixel loops write to is below width times height.
\<close>

theorem writes_inside_buffer:
  assumes "malloc_succeeds env"
    and "image_pixels s = image_width s * image_height s"
    and "unat (image_width s) * unat (image_height s) < 2 ^ 30"
    and "geometry_pixels c \<le> unat (image_width s) * unat (image_height s)"
    and "unat (num_active_fems (hdr fr)) \<le> 1"
  shows "crashed (process_frame c env fr s) = None
    \<and> (\<forall>p\<in>set (scan_order c).
          unat (output_offset c p) < unat (image_width s) * unat (image_height s))"
proof -
  let ?s1 = "process_lost_packets c (hdr fr) s"
  have s1: "image_pixels ?s1 = image_width ?s1 * image_height ?s1"
    "unat (image_width ?s1) * unat (image_height ?s1) < 2 ^ 30"
    "geometry_pixels c \<le> unat (image_width ?s1) * unat (image_height ?s1)"
    using assms(2-4) by (simp_all add: process_lost_packets_fields)
  have "unat (num_active_fems (hdr fr)) = unat (0 :: u8)
      \<or> unat (num_active_fems (hdr fr)) = unat (1 :: u8)"
    using assms(5) by auto
  then have "num_active_fems (hdr fr) = 0 \<or> num_active_fems (hdr fr) = 1"
    by (simp only: word_unat_eq_iff)
  then have "crashed (reorder_frame c env fr ?s1) = None"
  proof
    assume "num_active_fems (hdr fr) = 0"
    from reorder_frame_no_fem [OF assms(1) s1(1,2) this] show ?thesis by simp
  next
    assume "num_active_fems (hdr fr) = 1"
    from reorder_frame_single_fem [OF assms(1) s1 this] show ?thesis by auto
  qed
  moreover have "\<forall>p\<in>set (scan_order c).
          unat (output_offset c p) < unat (image_width s) * unat (image_height s)"
  proof
    fix p assume "p \<in> set (scan_order c)"
    from output_offset_bound [OF this]
    show "unat (output_offset c p) < unat (image_width s) * unat (image_height s)"
      using assms(4) by simp
  qed
  ultimately show ?thesis by (simp add: process_frame_def)
qed

text \<open>
  Claim C6, as amended. For a frame with exactly one active FEM, when the allocation succeeds
  and the buffer covers the detector geometry, \<open>process_frame\<close> returns normally, keeps
  the frames pushed before, and pushes exactly \<open>num_images\<close> triplets
  \<open>data\<close>, \<open>img_num\<close>, \<open>frame_num\<close>; the triplet of image \<open>j\<close> is numbered
  \<open>image_counter + j\<close>, and the counter ends at \<open>image_counter + num_images\<close>.
\<close>

theorem single_fem_frame_triplets:
  assumes "malloc_succeeds env"
    and "image_pixels s = image_width s * image_height s"
    and "unat (image_width s) * unat (image_height s) < 2 ^ 30"
    and "geometry_pixels c \<le> unat (image_width s) * unat (image_height s)"
    and "num_active_fems (hdr fr) = 1"
  shows "crashed (process_frame c env fr s) = None
    \<and> take (length (pushed s)) (pushed (final_state (process_frame c env fr s))) = pushed s
    \<and> length (pushed_since s (final_state (process_frame c env fr s)))
        = 3 * unat (num_images s)
    \<and> map label_of (pushed_since s (final_state (process_frame c env fr s)))
        = concat (map (\<lambda>j. [(''data'', image_counter s + of_nat j, None),
                             (''img_num'', image_counter s + of_nat j, Some (of_nat j)),
                             (''frame_num'', image_counter s + of_nat j,
                                Some (hdr_frame_number (hdr fr)))])
                   [0..<unat (num_images s)])
    \<and> image_counter (final_state (process_frame c env fr s))
        = image_counter s + of_nat (unat (num_images s))"
proof -
  let ?s1 = "process_lost_packets c (hdr fr) s"
  let ?n = "unat (num_images s)"
  note f = process_lost_packets_fields
  have s1: "image_pixels ?s1 = image_width ?s1 * image_height ?s1"
    "unat (image_width ?s1) * unat (image_height ?s1) < 2 ^ 30"
    "geometry_pixels c \<le> unat (image_width ?s1) * unat (image_height ?s1)"
    using assms(2-4) by (simp_all add: f)
  from reorder_frame_single_fem [OF assms(1) s1 assms(5)] obtain s' where
    r: "process_frame c env fr s = Returned s'"
    and e: "emitted fr ?s1 [0..<?n] s'"
    and cnt: "image_counter s' = image_counter s + of_nat ?n"
    by (auto simp: process_frame_def f)
  from e have t: "take (length (pushed s)) (pushed s') = pushed s"
    and l: "map label_of (pushed_since s s')
              = triplet_labels (hdr_frame_number (hdr fr)) (image_counter s) [0..<?n]"
    by (simp_all add: emitted_def pushed_since_def f)
  have "length (map label_of (pushed_since s s')) = 3 * ?n"
    by (simp only: l length_triplet_labels length_upt diff_zero)
  then have len: "length (pushed_since s s') = 3 * ?n" by simp
  note l' = l [unfolded triplet_labels_upt]
  have c0: "crashed (process_frame c env fr s) = None" using r by simp
  have fs: "final_state (process_frame c env fr s) = s'" using r by simp
  show ?thesis unfolding fs using c0 t len l' cnt by blast
qed

text \<open>
  Claim C10. Whatever the outcome of \<open>process_frame\<close>, the frames it pushed are the
  triplets of the images \<open>0 .. m - 1\<close> for some \<open>m \<le> num_images\<close>, in order. In the
  triplet of image \<open>j\<close> the \<open>data\<close> frame carries pixels, the \<open>img_num\<close> frame
  carries the 4-byte value \<open>j\<close>, the \<open>frame_num\<close> frame carries the header's frame
  number, and all three are numbered \<open>image_counter + j\<close> through \<open>set_frame_number\<close>.
\<close>

theorem triplet_payloads:
  "\<exists>m. m \<le> unat (num_images s)
     \<and> take (length (pushed s)) (pushed (final_state (process_frame c env fr s))) = pushed s
     \<and> map label_of (pushed_since s (final_state (process_frame c env fr s)))
         = concat (map (\<lambda>j. [(''data'', image_counter s + of_nat j, None),
                              (''img_num'', image_counter s + of_nat j, Some (of_nat j)),
                              (''frame_num'', image_counter s + of_nat j,
                                 Some (hdr_frame_number (hdr fr)))])
                    [0..<m])"
proof -
  let ?s1 = "process_lost_packets c (hdr fr) s"
  note f = process_lost_packets_fields
  from reorder_frame_pushed [of ?s1 c env fr] obtain m where
    m: "m \<le> unat (num_images s)"
    "take (length (pushed s)) (pushed (final_state (process_frame c env fr s))) = pushed s"
    "map label_of (pushed_since s (final_state (process_frame c env fr s)))
       = triplet_labels (hdr_frame_number (hdr fr)) (image_counter s) [0..<m]"
    by (auto simp: process_frame_def f pushed_since_def)
  have "m \<le> unat (num_images s)
     \<and> take (length (pushed s)) (pushed (final_state (process_frame c env fr s))) = pushed s
     \<and> map label_of (pushed_since s (final_state (process_frame c env fr s)))
         = concat (map (\<lambda>j. [(''data'', image_counter s + of_nat j, None),
                              (''img_num'', image_counter s + of_nat j, Some (of_nat j)),
                              (''frame_num'', image_counter s + of_nat j,
                                 Some (hdr_frame_number (hdr fr)))])
                    [0..<m])"
    using m(1) m(2) m(3) [unfolded triplet_labels_upt] by (intro conjI)
  then show ?thesis by (rule exI)
qed

subsection \<open>The example inputs, evaluated\<close>

lemma example_scan_order:
  "scan_order example_constants =
     [(0, 0, Suc 0, 0), (0, 0, 0, 0), (0, Suc 0, Suc 0, 0), (0, Suc 0, 0, 0)]"
  by (simp add: scan_order_def example_constants_def upt_conv_Cons)

lemma example_output_offsets:
  "output_offset example_constants (0, 0, Suc 0, 0) = 2"
  "output_offset example_constants (0, 0, 0, 0) = 0"
  "output_offset example_constants (0, Suc 0, Suc 0, 0) = 3"
  "output_offset example_constants (0, Suc 0, 0, 0) = 1"
  by (simp_all add: output_offset_def example_constants_def)

lemma example_constants_fields:
  "num_packets example_constants = 321"
  "max_frame_size example_constants = 2622400"
  "image_data_header example_constants = 32"
  "geometry_pixels example_constants = 4"
  by (simp_all add: example_constants_def geometry_pixels_def)

lemma example_frame_fields:
  "hdr (example_frame ms) = example_header ms"
  "payload_u16 (example_frame ms) a = of_nat (a div 2)"
  "num_active_fems (example_header ms) = of_nat (length ms)"
  "total_packets_received (example_header ms)
     = of_nat (sum_list (map (\<lambda>m. if m then 320 else 321) ms))"
  "hdr_frame_number (example_header ms) = 7"
  "packet_state (fem_rx_state (example_header ms) i) n
     = (if i < length ms \<and> ms ! i \<and> n = 0 then 255 else of_nat n)"
  by (simp_all add: example_frame_def example_header_def example_fem_state_def)

lemma example_plugin_eval:
  "example_plugin w h n =
     \<lparr> image_width = w, image_height = h, image_pixels = w * h, num_images = n,
       packets_lost = 0, image_counter = 0, pushed = [], error_log = [] \<rparr>"
  by (simp add: example_plugin_def configure_def LpdProcessPlugin_def
      CONFIG_DROPPED_PACKETS_def CONFIG_IMAGE_WIDTH_def CONFIG_IMAGE_HEIGHT_def
      CONFIG_NUM_IMAGES_def)

lemma example_malloc_fields:
  "malloc_succeeds (example_malloc ok) = ok"
  "malloc_contents (example_malloc ok) i = 0xDEAD"
  by (simp_all add: example_malloc_def)

lemmas example_eval =
  process_frame_def reorder_frame_def process_lost_packets_def allocate_def Let_def
  example_scan_order example_output_offsets example_constants_fields example_frame_fields
  example_plugin_eval example_malloc_fields copy_pixel_Some copy_pixel_None first_packet_def
  next_packet_def pixel_value_def input_offset_def input_sample_def lookup_slot_def
  primary_packet_size_def next_image_def push_image_def upt_conv_Cons

lemma example_first_image:
  "copy_pixels example_constants (example_frame [False]) 0 (scan_order example_constants)
     (Some [0xDEAD, 0xDEAD, 0xDEAD, 0xDEAD], first_packet (example_header [False]))
   = Inr (Some [17, 19, 16, 18],
          \<lparr> pkt_num = 0, pkt_slot = 0, pkt_offset = 0, pixel_offset = 4 \<rparr>)"
  by (simp add: example_eval)

lemma example_second_image:
  "copy_pixels example_constants (example_frame [False]) 0 (scan_order example_constants)
     (Some [17, 19, 16, 18],
      \<lparr> pkt_num = 0, pkt_slot = 0, pkt_offset = 0, pixel_offset = 4 \<rparr>)
   = Inr (Some [21, 23, 20, 22],
          \<lparr> pkt_num = 0, pkt_slot = 0, pkt_offset = 0, pixel_offset = 8 \<rparr>)"
  by (simp add: example_eval)

lemma example_single_fem:
  "process_frame example_constants (example_malloc True) (example_frame [False])
     ((example_plugin 2 2 2)\<lparr>image_counter := k\<rparr>)
   = Returned
       \<lparr> image_width = 2, image_height = 2, image_pixels = 4, num_images = 2,
         packets_lost = 0, image_counter = k + 2,
         pushed =
           [\<lparr> dataset_name = ''data'', out_frame_number = k, dimensions = [2, 2],
              out_data = Pixels [17, 19, 16, 18] \<rparr>,
            \<lparr> dataset_name = ''img_num'', out_frame_number = k, dimensions = [1],
              out_data = Scalar 0 \<rparr>,
            \<lparr> dataset_name = ''frame_num'', out_frame_number = k, dimensions = [1],
              out_data = Scalar 7 \<rparr>,
            \<lparr> dataset_name = ''data'', out_frame_number = k + 1, dimensions = [2, 2],
              out_data = Pixels [21, 23, 20, 22] \<rparr>,
            \<lparr> dataset_name = ''img_num'', out_frame_number = k + 1, dimensions = [1],
              out_data = Scalar 1 \<rparr>,
            \<lparr> dataset_name = ''frame_num'', out_frame_number = k + 1, dimensions = [1],
              out_data = Scalar 7 \<rparr>],
         error_log = [] \<rparr>"
  by (simp add: process_frame_def reorder_frame_def process_lost_packets_def allocate_def
      Let_def example_constants_fields example_frame_fields example_plugin_eval
      example_malloc_fields example_first_image example_second_image next_image_def
      push_image_def upt_conv_Cons)

lemma example_hypotheses:
  "malloc_succeeds (example_malloc True)"
  "image_pixels (example_plugin 2 2 2)
     = image_width (example_plugin 2 2 2) * image_height (example_plugin 2 2 2)"
  "unat (image_width (example_plugin 2 2 2)) * unat (image_height (example_plugin 2 2 2))
     < 2 ^ 30"
  "geometry_pixels example_constants
     \<le> unat (image_width (example_plugin 2 2 2)) * unat (image_height (example_plugin 2 2 2))"
  "num_active_fems (hdr (example_frame [False])) = 1"
  by (simp_all add: example_malloc_fields example_plugin_eval example_constants_fields
      example_frame_fields)

subsection \<open>Witnesses and counterexamples for the reordering claims\<close>

text \<open>
  Claim C5 as stated fails: with width and height configured as 1 the buffer holds one
  sample, and the first pixel of the first image is written at offset 2.
\<close>

theorem undersized_buffer_counterexample:
  "unat (image_width (example_plugin 1 1 2)) * unat (image_height (example_plugin 1 1 2)) = 1
   \<and> process_frame example_constants (example_malloc True) (example_frame [False])
        (example_plugin 1 1 2)
      = Crashed (OutOfBoundsWrite 2) (example_plugin 1 1 2)"
  by (simp add: example_eval)

text \<open>Witness for C5: a 2 x 2 image on the four-pixel detector, one active FEM.\<close>

theorem writes_inside_buffer_witness:
  "malloc_succeeds (example_malloc True)
   \<and> geometry_pixels example_constants = 4
   \<and> unat (num_active_fems (hdr (example_frame [False]))) = 1
   \<and> crashed (process_frame example_constants (example_malloc True) (example_frame [False])
        (example_plugin 2 2 2)) = None
   \<and> map (\<lambda>p. unat (output_offset example_constants p)) (scan_order example_constants)
        = [2, 0, 3, 1]"
proof -
  have fems: "unat (num_active_fems (hdr (example_frame [False]))) \<le> 1"
    by (simp add: example_frame_fields)
  have "crashed (process_frame example_constants (example_malloc True) (example_frame [False])
        (example_plugin 2 2 2)) = None"
    using writes_inside_buffer [OF example_hypotheses(1-4) fems] by blast
  then show ?thesis
    by (simp add: example_malloc_fields example_constants_fields example_frame_fields
        example_scan_order example_output_offsets)
qed

text \<open>
  Claim C6 as stated fails: when the allocation fails, a frame with one active FEM and
  \<open>num_images = 1\<close> yields no triplet at all; and with two active FEMs processing does
  not come to an end, because the second FEM writes through the freed, nulled buffer.
\<close>

theorem triplet_count_counterexample:
  "num_active_fems (hdr (example_frame [False])) = 1
   \<and> num_images (example_plugin 2 2 1) = 1
   \<and> pushed (final_state (process_frame example_constants (example_malloc False)
        (example_frame [False]) (example_plugin 2 2 1))) = []
   \<and> crashed (process_frame example_constants (example_malloc True)
        (example_frame [False, True]) (example_plugin 2 2 1)) = Some NullPointerWrite"
  by (simp add: example_eval)

text \<open>Witness for C6: two images, numbered 0 and 1, the counter ends at 2.\<close>

theorem single_fem_frame_triplets_witness:
  "malloc_succeeds (example_malloc True)
   \<and> num_active_fems (hdr (example_frame [False])) = 1
   \<and> crashed (process_frame example_constants (example_malloc True) (example_frame [False])
        (example_plugin 2 2 2)) = None
   \<and> length (pushed (final_state (process_frame example_constants (example_malloc True)
        (example_frame [False]) (example_plugin 2 2 2)))) = 6
   \<and> image_counter (final_state (process_frame example_constants (example_malloc True)
        (example_frame [False]) (example_plugin 2 2 2))) = 2"
proof -
  note t = single_fem_frame_triplets [OF example_hypotheses]
  have c: "crashed (process_frame example_constants (example_malloc True)
      (example_frame [False]) (example_plugin 2 2 2)) = None"
    using t by blast
  have "length (pushed_since (example_plugin 2 2 2)
      (final_state (process_frame example_constants (example_malloc True)
        (example_frame [False]) (example_plugin 2 2 2))))
      = 3 * unat (num_images (example_plugin 2 2 2))"
    using t by blast
  then have l: "length (pushed (final_state (process_frame example_constants
      (example_malloc True) (example_frame [False]) (example_plugin 2 2 2)))) = 6"
    by (simp add: pushed_since_def example_plugin_eval)
  have "image_counter (final_state (process_frame example_constants (example_malloc True)
        (example_frame [False]) (example_plugin 2 2 2)))
      = image_counter (example_plugin 2 2 2) + of_nat (unat (num_images (example_plugin 2 2 2)))"
    using t by blast
  then have i: "image_counter (final_state (process_frame example_constants
      (example_malloc True) (example_frame [False]) (example_plugin 2 2 2))) = 2"
    by (simp add: example_plugin_eval)
  show ?thesis using c l i example_hypotheses(1,5) by blast
qed

text \<open>
  Witness for C10: a plugin that has numbered five images before. The two triplets of the
  frame are numbered 5 and 6, while their \<open>img_num\<close> frames carry 0 and 1 and their
  \<open>frame_num\<close> frames carry the frame number 7.
\<close>

theorem triplet_payloads_witness:
  "(\<exists>m. m \<le> 2
      \<and> map label_of (pushed (final_state (process_frame example_constants
            (example_malloc True) (example_frame [False])
            ((example_plugin 2 2 2)\<lparr>image_counter := 5\<rparr>))))
          = concat (map (\<lambda>j. [(''data'', 5 + of_nat j, None),
                               (''img_num'', 5 + of_nat j, Some (of_nat j)),
                               (''frame_num'', 5 + of_nat j, Some 7)]) [0..<m]))
   \<and> map label_of (pushed (final_state (process_frame example_constants
         (example_malloc True) (example_frame [False])
         ((example_plugin 2 2 2)\<lparr>image_counter := 5\<rparr>))))
       = [(''data'', 5, None), (''img_num'', 5, Some 0), (''frame_num'', 5, Some 7),
          (''data'', 6, None), (''img_num'', 6, Some 1), (''frame_num'', 6, Some 7)]"
proof -
  have a: "\<exists>m. m \<le> 2
      \<and> map label_of (pushed (final_state (process_frame example_constants
            (example_malloc True) (example_frame [False])
            ((example_plugin 2 2 2)\<lparr>image_counter := 5\<rparr>))))
          = concat (map (\<lambda>j. [(''data'', 5 + of_nat j, None),
                               (''img_num'', 5 + of_nat j, Some (of_nat j)),
                               (''frame_num'', 5 + of_nat j, Some 7)]) [0..<m])"
    using triplet_payloads [of "(example_plugin 2 2 2)\<lparr>image_counter := 5\<rparr>"
        example_constants "example_malloc True" "example_frame [False]"]
    by (simp add: pushed_since_def example_plugin_eval example_frame_fields)
  have b: "map label_of (pushed (final_state (process_frame example_constants
         (example_malloc True) (example_frame [False])
         ((example_plugin 2 2 2)\<lparr>image_counter := 5\<rparr>))))
       = [(''data'', 5, None), (''img_num'', 5, Some 0), (''frame_num'', 5, Some 7),
          (''data'', 6, None), (''img_num'', 6, Some 1), (''frame_num'', 6, Some 7)]"
    by (simp add: example_single_fem label_of_def)
  show ?thesis using a b by blast
qed

subsection \<open>Missing packets and several FEMs\<close>

lemma ucast_u8_below_sentinel: "(ucast (x :: u8) :: u32) < 65535"
proof -
  have "unat (ucast x :: u32) = unat x"
    by (simp add: unsigned_ucast_eq take_bit_nat_eq_self unsigned_less [THEN less_trans])
  moreover have "unat x < 2 ^ LENGTH(8)" by (rule unsigned_less)
  ultimately have "unat (ucast x :: u32) < unat (65535 :: u32)" by simp
  then show ?thesis by (simp only: word_less_nat_alt)
qed

lemma lookup_slot_below_sentinel: "lookup_slot h n < 65535"
  unfolding lookup_slot_def by (rule ucast_u8_below_sentinel)

lemma packet_never_missing:
  "pkt_slot (first_packet h) < 65535"
  "pkt_slot l < 65535 \<Longrightarrow> pkt_slot (next_packet h l) < 65535"
  by (simp_all add: first_packet_def next_packet_def Let_def lookup_slot_below_sentinel)

text \<open>
  Claim C1 (code defect). \<open>packet_state\<close> entries are \<open>uint8_t\<close>: the sentinel 65535
  stored in one of them leaves 255, which \<open>pkt_slot < 65535\<close> takes for a received packet.
  In the example packet 0 of the only FEM is missing and serves all four pixels of the
  image; the image pushed is not zero but the samples found at storage slot 255 of the input
  buffer.
\<close>

theorem missing_packet_not_zero_filled:
  "(ucast (65535 :: u16) :: u8) = 255
   \<and> packet_state (fem_rx_state (hdr (example_frame [True])) 0) 0 = 255
   \<and> lookup_slot (hdr (example_frame [True])) 0 = 255
   \<and> pushed (final_state (process_frame example_constants (example_malloc True)
        (example_frame [True]) (example_plugin 2 2 1)))
      = [\<lparr> dataset_name = ''data'', out_frame_number = 0, dimensions = [2, 2],
            out_data = Pixels [60437, 60439, 60436, 60438] \<rparr>,
         \<lparr> dataset_name = ''img_num'', out_frame_number = 0, dimensions = [1],
            out_data = Scalar 0 \<rparr>,
         \<lparr> dataset_name = ''frame_num'', out_frame_number = 0, dimensions = [1],
            out_data = Scalar 7 \<rparr>]"
  by (simp add: example_eval)

text \<open>
  Claim C2 (code defect). In the example frame the FEM at position 0 has all its packets
  and the FEM at position 1 misses packet 0, so their \<open>packet_state\<close> entries for packet 0
  differ (0 and 255). Reordering the FEM at position 1 into a live buffer looks up the entry
  of position 0 (\<open>pkt_slot = 0\<close>, giving the samples 496 .. 499 of its region) and writes
  the offsets 0 .. 3, the ones the FEM at position 0 is written to. In \<open>process_frame\<close>
  itself the buffer has been freed and nulled after the first FEM, so the first write for
  the second FEM goes through the null pointer, after the one triplet of the first FEM.
\<close>

theorem second_fem_not_tiled:
  "packet_state (fem_rx_state (hdr (example_frame [False, True])) 0) 0 = 0
   \<and> packet_state (fem_rx_state (hdr (example_frame [False, True])) 1) 0 = 255
   \<and> copy_pixels example_constants (example_frame [False, True]) 1
        (scan_order example_constants)
        (Some [0, 0, 0, 0], first_packet (hdr (example_frame [False, True])))
      = Inr (Some [497, 499, 496, 498],
             \<lparr> pkt_num = 0, pkt_slot = 0, pkt_offset = 0, pixel_offset = 4 \<rparr>)
   \<and> copy_pixels example_constants (example_frame [False, True]) 0
        (scan_order example_constants)
        (Some [0, 0, 0, 0], first_packet (hdr (example_frame [False, True])))
      = Inr (Some [17, 19, 16, 18],
             \<lparr> pkt_num = 0, pkt_slot = 0, pkt_offset = 0, pixel_offset = 4 \<rparr>)
   \<and> crashed (process_frame example_constants (example_malloc True)
        (example_frame [False, True]) (example_plugin 2 2 1)) = Some NullPointerWrite
   \<and> length (pushed (final_state (process_frame example_constants (example_malloc True)
        (example_frame [False, True]) (example_plugin 2 2 1)))) = 3"
  by (simp add: example_eval)

subsection \<open>Frame assembly\<close>

lemma evaluate_completion_inv:
  "buffer_state b = Receiving \<Longrightarrow> assembler_inv expected (evaluate_completion expected b)"
  by (simp add: assembler_inv_def evaluate_completion_def)

lemma drop_frame_inv:
  "buffer_state b = Receiving \<Longrightarrow> assembler_inv expected b \<Longrightarrow>
     assembler_inv expected (drop_frame expected b)"
  by (simp add: assembler_inv_def drop_frame_def)

lemma process_event_inv:
  "assembler_inv expected b \<Longrightarrow> assembler_inv expected (process_event expected b ev)"
proof (cases ev)
  case (Packet fem t)
  assume inv: "assembler_inv expected b"
  show ?thesis
  proof (cases "buffer_state b")
    case Empty
    then show ?thesis using inv Packet by (simp add: evaluate_completion_inv)
  next
    case Receiving
    then show ?thesis using inv Packet by (simp add: evaluate_completion_inv)
  next
    case Complete
    then show ?thesis using inv Packet by simp
  next
    case Dropped
    then show ?thesis using inv Packet by simp
  qed
next
  case Timeout
  assume "assembler_inv expected b"
  then show ?thesis using Timeout
    by (cases "buffer_state b") (simp_all add: drop_frame_inv)
next
  case Evict
  assume "assembler_inv expected b"
  then show ?thesis using Evict
    by (cases "buffer_state b") (simp_all add: drop_frame_inv)
qed

lemma run_assembler_inv: "assembler_inv expected (run_assembler expected events)"
proof (induction events rule: rev_induct)
  case Nil
  show ?case by (simp add: run_assembler_def assembler_inv_def empty_buffer_def)
next
  case (snoc ev events)
  then show ?case by (simp add: run_assembler_def process_event_inv)
qed

lemma terminal_absorbing:
  "buffer_state b = Complete \<or> buffer_state b = Dropped \<Longrightarrow> process_event expected b ev = b"
  by (cases ev) auto

lemma all_fems_complete_iff:
  "all_fems_complete expected h \<longleftrightarrow>
     (\<forall>i < unat (num_active_fems h).
        sof_marker_count (fem_rx_state h i) = 1 \<and> eof_marker_count (fem_rx_state h i) = 1
        \<and> unat (packets_received (fem_rx_state h i)) = expected)"
  by (auto simp: all_fems_complete_def fem_complete_def list_all_iff)

lemma num_fem_frame_packets_eq:
  "num_fem_frame_packets bit_depth = Some expected \<Longrightarrow>
     expected = num_primary_packets ! nat (bit_depth_value bit_depth) + num_tail_packets
     \<and> expected = 321"
  by (cases bit_depth)
     (simp_all add: num_fem_frame_packets_def num_primary_packets_def num_tail_packets_def
        Let_def)

lemma example_trailer_decode:
  assumes "pn \<le> 0x3FFFFFFF"
  shows "get_frame_number (example_trailer pn sof eof) = 7"
    and "get_packet_number (example_trailer pn sof eof) = pn"
    and "get_start_of_frame_marker (example_trailer pn sof eof) = sof"
    and "get_end_of_frame_marker (example_trailer pn sof eof) = eof"
proof -
  have le: "pn \<le> packet_number_mask" using assms by (simp add: packet_number_mask_def)
  note r = rt_bits [OF le, of sof eof]
  show "get_frame_number (example_trailer pn sof eof) = 7"
    by (simp add: get_frame_number_def example_trailer_def encode_trailer_def)
  show "get_packet_number (example_trailer pn sof eof) = pn"
    using r(1) by (simp add: get_packet_number_def example_trailer_def encode_trailer_def)
  show "get_start_of_frame_marker (example_trailer pn sof eof) = sof"
    using r(2) by (simp add: get_start_of_frame_marker_def example_trailer_def encode_trailer_def)
  show "get_end_of_frame_marker (example_trailer pn sof eof) = eof"
    using r(3) by (simp add: get_end_of_frame_marker_def example_trailer_def encode_trailer_def)
qed

lemmas assembler_eval =
  run_assembler_def empty_buffer_def evaluate_completion_def drop_frame_def
  all_fems_complete_def fem_complete_def receive_packet_def locate_fem_def fem_position_def
  initialise_frame_header_def example_trailer_decode max_num_fems_def Let_def upt_conv_Cons

lemma small_drop:
  "buffer_state (run_assembler 321
     [Packet 0 (example_trailer 0 True False), Packet 0 (example_trailer 1 False False),
      Timeout]) = Dropped
   \<and> lost (run_assembler 321
     [Packet 0 (example_trailer 0 True False), Packet 0 (example_trailer 1 False False),
      Timeout]) = 319"
  by (simp add: assembler_eval)

lemma small_complete:
  "buffer_state (run_assembler 2
     [Packet 0 (example_trailer 0 True False), Packet 0 (example_trailer 1 False True)])
   = Complete"
  by (simp add: assembler_eval)

lemma ignored:
  "run_assembler 321 [Packet ILLEGAL_FEM_IDX (example_trailer 0 True False)] = empty_buffer"
  by (simp add: run_assembler_def ILLEGAL_FEM_IDX_def)

lemma unat_of_nat_small: "k < 2 ^ 30 \<Longrightarrow> unat (of_nat k :: u32) = k"
  by (simp add: unat_of_nat)

lemma of_nat_packet_number:
  assumes "k < 2 ^ 30"
  shows "(of_nat k :: u32) \<le> 0x3FFFFFFF"
proof -
  have "unat (of_nat k :: u32) = k" using assms by (rule unat_of_nat_small)
  then have "unat (of_nat k :: u32) \<le> unat (0x3FFFFFFF :: u32)" using assms by simp
  then show ?thesis by (simp only: word_le_nat_alt)
qed

lemma first_in_order_packet:
  assumes "1 < n"
  shows "receiving_in_order 1 (process_event n empty_buffer (in_order_packet n 0))"
  using assms
  by (simp add: in_order_packet_def receiving_in_order_def empty_buffer_def
      evaluate_completion_def all_fems_complete_def fem_complete_def receive_packet_def
      locate_fem_def fem_position_def initialise_frame_header_def example_trailer_decode
      max_num_fems_def Let_def)

lemma next_in_order_packet:
  assumes "receiving_in_order m b" and "0 < m" and "Suc m < n" and "n < 2 ^ 30"
  shows "receiving_in_order (Suc m) (process_event n b (in_order_packet n m))"
proof -
  have pn: "(of_nat m :: u32) \<le> 0x3FFFFFFF" using assms(3,4) by (intro of_nat_packet_number) simp
  note d = example_trailer_decode [OF pn]
  show ?thesis using assms(1-3)
    by (simp add: in_order_packet_def receiving_in_order_def d
        evaluate_completion_def all_fems_complete_def fem_complete_def receive_packet_def
        locate_fem_def fem_position_def max_num_fems_def Let_def)
qed

lemma last_in_order_packet:
  assumes "receiving_in_order m b" and "0 < m" and "Suc m = n" and "n < 2 ^ 30"
  shows "buffer_state (process_event n b (in_order_packet n m)) = Complete
    \<and> total_packets_received (header (process_event n b (in_order_packet n m))) = of_nat n"
proof -
  have pn: "(of_nat m :: u32) \<le> 0x3FFFFFFF" using assms(3,4) by (intro of_nat_packet_number) simp
  note d = example_trailer_decode [OF pn]
  have "unat (of_nat n :: u32) = n" using assms(4) by (rule unat_of_nat_small)
  moreover have w: "(of_nat n :: u32) = 1 + of_nat m" using assms(3) by auto
  ultimately have u: "unat (1 + of_nat m :: u32) = n" by simp
  show ?thesis using assms(1-3) u w
    by (simp add: in_order_packet_def receiving_in_order_def d
        evaluate_completion_def all_fems_complete_def fem_complete_def receive_packet_def
        locate_fem_def fem_position_def max_num_fems_def Let_def add.commute)
qed

lemma in_order_prefix:
  assumes "0 < m" and "m < n" and "n < 2 ^ 30"
  shows "receiving_in_order m (run_assembler n (in_order_delivery n m))"
  using assms
proof (induction m)
  case 0
  then show ?case by simp
next
  case (Suc m)
  show ?case
  proof (cases "m = 0")
    case True
    with Suc.prems first_in_order_packet [of n] show ?thesis
      by (simp add: run_assembler_def in_order_delivery_def)
  next
    case False
    with Suc have "receiving_in_order m (run_assembler n (in_order_delivery n m))" by simp
    from next_in_order_packet [OF this] False Suc.prems show ?thesis
      by (simp add: run_assembler_def in_order_delivery_def)
  qed
qed

lemma in_order_delivery_completes:
  assumes "1 < n" and "n < 2 ^ 30"
  shows "buffer_state (run_assembler n (in_order_delivery n n)) = Complete
    \<and> total_packets_received (header (run_assembler n (in_order_delivery n n))) = of_nat n"
proof -
  obtain m where m: "n = Suc m" "0 < m" using assms(1) by (cases n) auto
  have "receiving_in_order m (run_assembler n (in_order_delivery n m))"
    using m assms(2) by (intro in_order_prefix) simp_all
  from last_in_order_packet [OF this m(2) m(1) [symmetric] assms(2)] show ?thesis
    by (simp add: run_assembler_def in_order_delivery_def m(1))
qed

text \<open>
  Claim C7. For a frame buffer that has left the Empty state, after any sequence of
  packets, time-outs and evictions: it is Complete if and only if every active FEM has
  \<open>sof_marker_count = 1\<close>, \<open>eof_marker_count = 1\<close> and \<open>packets_received\<close> equal to
  \<open>num_primary_packets[bit_depth] + num_tail_packets\<close>; if it is neither Complete nor
  still Receiving it is Dropped with \<open>lost = expected - received\<close>; and Complete and
  Dropped are terminal, no event changes such a buffer.
\<close>

theorem frame_complete_iff:
  assumes "num_fem_frame_packets bit_depth = Some expected"
    and "b = run_assembler expected events"
    and "buffer_state b \<noteq> Empty"
  shows "(buffer_state b = Complete \<longleftrightarrow>
            (\<forall>i < unat (num_active_fems (header b)).
               sof_marker_count (fem_rx_state (header b) i) = 1
               \<and> eof_marker_count (fem_rx_state (header b) i) = 1
               \<and> unat (packets_received (fem_rx_state (header b) i))
                   = num_primary_packets ! nat (bit_depth_value bit_depth) + num_tail_packets))
    \<and> (buffer_state b \<noteq> Complete \<and> buffer_state b \<noteq> Receiving \<longrightarrow>
          buffer_state b = Dropped
          \<and> lost b = int (expected * unat (num_active_fems (header b)))
                      - int (unat (total_packets_received (header b))))
    \<and> (buffer_state b = Complete \<or> buffer_state b = Dropped \<longrightarrow>
          process_event expected b ev = b)"
proof -
  have inv: "assembler_inv expected b" using assms(2) by (simp add: run_assembler_inv)
  have e: "expected = num_primary_packets ! nat (bit_depth_value bit_depth) + num_tail_packets"
    using num_fem_frame_packets_eq [OF assms(1)] by simp
  have a: "buffer_state b = Complete \<longleftrightarrow> all_fems_complete expected (header b)"
    using inv assms(3) by (cases "buffer_state b") (simp_all add: assembler_inv_def)
  have d: "buffer_state b \<noteq> Complete \<and> buffer_state b \<noteq> Receiving \<longrightarrow>
          buffer_state b = Dropped
          \<and> lost b = int (expected * unat (num_active_fems (header b)))
                      - int (unat (total_packets_received (header b)))"
    using inv assms(3) by (cases "buffer_state b") (simp_all add: assembler_inv_def)
  have t: "buffer_state b = Complete \<or> buffer_state b = Dropped \<longrightarrow>
          process_event expected b ev = b"
    using terminal_absorbing by blast
  show ?thesis using a d t unfolding all_fems_complete_iff e [symmetric] by blast
qed

text \<open>
  Witness for C7: two packets of frame 7 and then the time-out give a Dropped buffer with
  319 of the 321 packets lost; the in-order delivery of all 321 packets gives a Complete one.
\<close>

theorem frame_complete_iff_witness:
  "num_fem_frame_packets bitDepth12 = Some 321
   \<and> buffer_state (run_assembler 321
        [Packet 0 (example_trailer 0 True False), Packet 0 (example_trailer 1 False False),
         Timeout]) = Dropped
   \<and> lost (run_assembler 321
        [Packet 0 (example_trailer 0 True False), Packet 0 (example_trailer 1 False False),
         Timeout]) = 319
   \<and> buffer_state (run_assembler 321 (in_order_delivery 321 321)) = Complete
   \<and> total_packets_received (header (run_assembler 321 (in_order_delivery 321 321))) = 321"
proof -
  let ?b = "run_assembler 321
        [Packet 0 (example_trailer 0 True False), Packet 0 (example_trailer 1 False False),
         Timeout]"
  have h: "num_fem_frame_packets bitDepth12 = Some 321"
    by (simp add: num_fem_frame_packets_def num_primary_packets_def num_tail_packets_def)
  have st: "buffer_state ?b = Dropped" by (simp add: assembler_eval)
  have n: "unat (num_active_fems (header ?b)) = 1"
    "unat (total_packets_received (header ?b)) = 2"
    by (simp_all add: assembler_eval)
  have ne: "buffer_state ?b \<noteq> Empty" using st by simp
  have "lost ?b = int (321 * unat (num_active_fems (header ?b)))
                  - int (unat (total_packets_received (header ?b)))"
    using frame_complete_iff [OF h refl ne] st by simp
  then have l: "lost ?b = 319" by (simp only: n)
  have c: "buffer_state (run_assembler 321 (in_order_delivery 321 321)) = Complete
    \<and> total_packets_received (header (run_assembler 321 (in_order_delivery 321 321))) = 321"
    using in_order_delivery_completes [of 321] by simp
  show ?thesis using h st l c by blast
qed

end
